theory Spec2Isabelle
  imports Main "HOL-Library.Word" "HOL-Library.Finite_Map" "HOL-Library.Sublist"
    "HOL-Library.List_Lexorder" "HOL-Library.Char_ord"
begin

section \<open>The bucket store of package tenant (storage\_bucket.go)\<close>

text \<open>
  The store keeps buckets in two sub-containers of a key-value transaction: the primary
  table \<open>bucketsv1\<close> (encoded ID to encoded record) and the index \<open>bucketindexv1\<close>
  (encoded organization ID followed by the name, to encoded ID). Byte sequences are
  \<open>string\<close>s; byte order is the order of \<open>char\<close> lifted lexicographically to lists.
\<close>

type_synonym bytes = string

subsection \<open>Error values\<close>

text \<open>
  One constructor for each error value the source builds or passes on. \<open>ErrKeyNotFound\<close>
  and \<open>ErrStorage\<close> are the storage engine's errors, \<open>ErrInvalidID\<close> and
  \<open>ErrInvalidIDLength\<close> those of the identifier codec; \<open>Error_EInvalid err\<close> is
  \<^verbatim>\<open>&influxdb.Error{Code: influxdb.EInvalid, Err: err}\<close> and \<open>Error_Err err\<close> is
  \<^verbatim>\<open>&influxdb.Error{Err: err}\<close>. The spec's kinds are: NotFound \<open>ErrBucketNotFound\<close>,
  NotFoundByName \<open>ErrBucketNotFoundByName\<close>, AlreadyExists \<open>BucketAlreadyExistsError\<close>,
  NameNotUnique \<open>ErrBucketNameNotUnique\<close>, InvalidRequest \<open>invalidBucketListRequest\<close> and
  \<open>ErrNameisEmpty\<close>, Forbidden \<open>errRenameSystemBucket\<close>, Internal
  \<open>ErrInternalServiceError\<close>, Corrupt \<open>ErrCorruptBucket\<close>, Unprocessable
  \<open>ErrUnprocessableBucket\<close>.
\<close>

datatype error =
    ErrInvalidID
  | ErrInvalidIDLength
  | ErrKeyNotFound
  | ErrStorage string
  | ErrFailureGeneratingID
  | Error_EInvalid error
  | Error_Err error
  | ErrNameisEmpty
  | BucketAlreadyExistsError string
  | ErrInternalServiceError error
  | ErrCorruptBucket
  | ErrUnprocessableBucket
  | ErrBucketNotFound
  | ErrBucketNotFoundByName string
  | InvalidOrgIDError error
  | invalidBucketListRequest
  | errRenameSystemBucket
  | ErrBucketNameNotUnique

subsection \<open>Identifiers\<close>

text \<open>
  Modelled from the spec: the type \<open>influxdb.ID\<close> with \<open>Valid\<close>, \<open>Encode\<close>, \<open>Decode\<close> and
  the constant \<open>IDLength\<close> is declared outside the given sources. The spec says
  identifiers "encode to/from a fixed-width byte sequence; encoding/decoding must
  round-trip exactly and reject malformed input", and that an identifier can be
  "unset/invalid". Here an ID is an unsigned 64-bit integer, the zero ID is the invalid
  one, the encoding is 16 hexadecimal digits (most significant first), and encoding an
  invalid ID fails.
\<close>

type_synonym ID = "64 word"

definition IDLength :: nat where
  "IDLength = 16"

definition Valid :: "ID \<Rightarrow> bool" where
  "Valid i \<longleftrightarrow> i \<noteq> 0"

definition hexdigit :: "nat \<Rightarrow> char" where
  "hexdigit d = (if d < 10 then char_of (48 + d) else char_of (87 + d))"

definition hexval :: "char \<Rightarrow> nat option" where
  "hexval c =
     (let v = (of_char c :: nat) in
      if 48 \<le> v \<and> v \<le> 57 then Some (v - 48)
      else if 97 \<le> v \<and> v \<le> 102 then Some (v - 87)
      else if 65 \<le> v \<and> v \<le> 70 then Some (v - 55)
      else None)"

fun hex_fixed :: "nat \<Rightarrow> nat \<Rightarrow> bytes" where
  "hex_fixed 0 n = []"
| "hex_fixed (Suc k) n = hex_fixed k (n div 16) @ [hexdigit (n mod 16)]"

fun parse_hex :: "nat \<Rightarrow> bytes \<Rightarrow> nat option" where
  "parse_hex acc [] = Some acc"
| "parse_hex acc (c # cs) =
     (case hexval c of None \<Rightarrow> None | Some d \<Rightarrow> parse_hex (acc * 16 + d) cs)"

definition Encode :: "ID \<Rightarrow> error + bytes" where
  "Encode i = (if \<not> Valid i then Inl ErrInvalidID else Inr (hex_fixed IDLength (unat i)))"

definition Decode :: "bytes \<Rightarrow> error + ID" where
  "Decode b =
     (if length b \<noteq> IDLength then Inl ErrInvalidIDLength
      else case parse_hex 0 b of
        None \<Rightarrow> Inl ErrInvalidID
      | Some n \<Rightarrow> if \<not> Valid (of_nat n) then Inl ErrInvalidID else Inr (of_nat n))"

subsection \<open>Bucket records and their codec\<close>

text \<open>
  Modelled from the spec: the type \<open>influxdb.Bucket\<close> is declared outside the given
  sources; its fields are those of the spec's data model. A timestamp is the instant it
  denotes, in nanoseconds, which is what \<open>time.Time.Equal\<close> compares and what the record
  codec keeps.
\<close>

datatype BucketType = BucketTypeUser | BucketTypeSystem

record Bucket =
  ID :: ID
  OrgID :: ID
  Type :: BucketType
  Name :: string
  Description :: string
  RetentionPeriod :: int
  CreatedAt :: nat
  UpdatedAt :: nat

text \<open>
  \<open>unmarshalBucket\<close> and \<open>marshalBucket\<close> call \<open>json.Unmarshal\<close> and \<open>json.Marshal\<close> of Go's
  standard library. A stored value stands for its bytes by what \<open>json.Unmarshal\<close> makes of
  them: \<open>Doc u\<close> for bytes that decode to the record \<open>u\<close>, \<open>Junk\<close> for bytes that do not
  decode. \<open>json.Marshal\<close> writes a record so that every field reads back as it was, except
  that in a string every byte that does not start a valid UTF-8 encoding is written as
  the replacement character U+FFFD: the record read back has such bytes of \<open>Name\<close> and
  \<open>Description\<close> replaced by the three bytes of U+FFFD. Encoding a record does not fail;
  the callers keep the source's branch for an encoding error.

  \<open>rune_width\<close> is the size that \<open>utf8.DecodeRuneInString\<close> reports for the encoding at the
  front of the bytes, with 0 where it reports \<open>RuneError\<close> of size 1 (or no bytes at all):
  one byte below \<open>0x80\<close>; a lead byte \<open>0xC2\<close> to \<open>0xF4\<close> followed by one to three
  continuation bytes \<open>0x80\<close> to \<open>0xBF\<close>, the first of them in the narrower range that
  excludes overlong forms, surrogates and code points above U+10FFFF.
\<close>

definition RuneError :: bytes where
  "RuneError = [CHR 0xEF, CHR 0xBF, CHR 0xBD]"

definition byte_in :: "nat \<Rightarrow> nat \<Rightarrow> char \<Rightarrow> bool" where
  "byte_in lo hi c \<longleftrightarrow> lo \<le> of_char c \<and> (of_char c :: nat) \<le> hi"

definition accept_lo :: "nat \<Rightarrow> nat" where
  "accept_lo b = (if b = 0xE0 then 0xA0 else if b = 0xF0 then 0x90 else 0x80)"

definition accept_hi :: "nat \<Rightarrow> nat" where
  "accept_hi b = (if b = 0xED then 0x9F else if b = 0xF4 then 0x8F else 0xBF)"

fun rune_width :: "bytes \<Rightarrow> nat" where
  "rune_width [] = 0"
| "rune_width (s0 # rest) =
     (let b = (of_char s0 :: nat) in
      if b < 0x80 then 1
      else if b < 0xC2 \<or> 0xF4 < b then 0
      else if b < 0xE0 then
        (case rest of
           s1 # _ \<Rightarrow> if byte_in 0x80 0xBF s1 then 2 else 0
         | _ \<Rightarrow> 0)
      else if b < 0xF0 then
        (case rest of
           s1 # s2 # _ \<Rightarrow>
             if byte_in (accept_lo b) (accept_hi b) s1 \<and> byte_in 0x80 0xBF s2 then 3 else 0
         | _ \<Rightarrow> 0)
      else
        (case rest of
           s1 # s2 # s3 # _ \<Rightarrow>
             if byte_in (accept_lo b) (accept_hi b) s1 \<and> byte_in 0x80 0xBF s2
                \<and> byte_in 0x80 0xBF s3 then 4 else 0
         | _ \<Rightarrow> 0))"

text \<open>
  A string as it reads back after \<open>json.Marshal\<close> and \<open>json.Unmarshal\<close>: valid encodings
  are kept, every other byte becomes U+FFFD. A string is valid UTF-8 when this changes
  nothing.
\<close>

fun coerce_utf8 :: "bytes \<Rightarrow> bytes" where
  "coerce_utf8 [] = []"
| "coerce_utf8 (c # cs) =
     (if rune_width (c # cs) = 0 then RuneError @ coerce_utf8 cs
      else take (rune_width (c # cs)) (c # cs)
             @ coerce_utf8 (drop (rune_width (c # cs)) (c # cs)))"

definition ValidString :: "bytes \<Rightarrow> bool" where
  "ValidString s \<longleftrightarrow> coerce_utf8 s = s"

definition json_roundtrip :: "Bucket \<Rightarrow> Bucket" where
  "json_roundtrip u =
     u\<lparr>Name := coerce_utf8 (Name u), Description := coerce_utf8 (Description u)\<rparr>"

datatype blob = Doc Bucket | Junk bytes

definition unmarshalBucket :: "blob \<Rightarrow> error + Bucket" where
  "unmarshalBucket v = (case v of Doc u \<Rightarrow> Inr u | Junk _ \<Rightarrow> Inl ErrCorruptBucket)"

definition marshalBucket :: "Bucket \<Rightarrow> error + blob" where
  "marshalBucket u = Inr (Doc (json_roundtrip u))"

text \<open>
  Modelled from the spec: the reserved system buckets ("two reserved names map to fixed,
  non-persisted records with fixed identifiers and fixed retention periods") and the page
  sizes ("a standard page size", "a maximum page size") are constants of package
  \<open>influxdb\<close>, outside the given sources. Retention periods are in nanoseconds.
\<close>

definition TasksSystemBucketName :: string where
  "TasksSystemBucketName = ''_tasks''"

definition MonitoringSystemBucketName :: string where
  "MonitoringSystemBucketName = ''_monitoring''"

definition TasksSystemBucketID :: ID where
  "TasksSystemBucketID = 10"

definition MonitoringSystemBucketID :: ID where
  "MonitoringSystemBucketID = 11"

definition TasksSystemBucketRetention :: int where
  "TasksSystemBucketRetention = 259200000000000"

definition MonitoringSystemBucketRetention :: int where
  "MonitoringSystemBucketRetention = 604800000000000"

definition DefaultPageSize :: int where
  "DefaultPageSize = 20"

definition MaxPageSize :: int where
  "MaxPageSize = 100"

subsection \<open>The storage engine\<close>

text \<open>
  Modelled from the spec: package \<open>kv\<close> is outside the given sources. The spec's contract:
  a transaction exposes named sub-containers, "each an independent flat keyspace of
  byte-sequence keys to byte-sequence values", with \<open>get(key)\<close> giving the value or
  NotFound, \<open>put\<close>, \<open>delete\<close>, and a forward cursor over the ordered keys from a seek key,
  with a direction, an optional prefix and a terminal error. A transaction is the two
  tables together with the finite set of engine calls that fail in it (each with the
  message of its storage error), so that every error branch of the store can be reached.
\<close>

datatype table = bucketBucket | bucketIndex

datatype kv_call =
    Call_Bucket table
  | Call_Get table bytes
  | Call_Put table bytes
  | Call_Delete table bytes
  | Call_ForwardCursor table
  | Call_CursorErr table

record kv_tx =
  bucketsv1 :: "(bytes, blob) fmap"
  bucketindexv1 :: "(bytes, bytes) fmap"
  failing :: "(kv_call, string) fmap"

datatype CursorDirection = CursorAscending | CursorDescending

definition IsNotFound :: "error \<Rightarrow> bool" where
  "IsNotFound err \<longleftrightarrow> err = ErrKeyNotFound"

definition tx_Bucket :: "kv_tx \<Rightarrow> table \<Rightarrow> error + unit" where
  "tx_Bucket tx name =
     (case fmlookup (failing tx) (Call_Bucket name) of
        Some msg \<Rightarrow> Inl (ErrStorage msg)
      | None \<Rightarrow> Inr ())"

definition kv_Get :: "kv_tx \<Rightarrow> table \<Rightarrow> (bytes, 'v) fmap \<Rightarrow> bytes \<Rightarrow> error + 'v" where
  "kv_Get tx name m key =
     (case fmlookup (failing tx) (Call_Get name key) of
        Some msg \<Rightarrow> Inl (ErrStorage msg)
      | None \<Rightarrow> (case fmlookup m key of None \<Rightarrow> Inl ErrKeyNotFound | Some v \<Rightarrow> Inr v))"

definition b_Get :: "kv_tx \<Rightarrow> bytes \<Rightarrow> error + blob" where
  "b_Get tx key = kv_Get tx bucketBucket (bucketsv1 tx) key"

definition idx_Get :: "kv_tx \<Rightarrow> bytes \<Rightarrow> error + bytes" where
  "idx_Get tx key = kv_Get tx bucketIndex (bucketindexv1 tx) key"

definition b_Put :: "kv_tx \<Rightarrow> bytes \<Rightarrow> blob \<Rightarrow> error + kv_tx" where
  "b_Put tx key v =
     (case fmlookup (failing tx) (Call_Put bucketBucket key) of
        Some msg \<Rightarrow> Inl (ErrStorage msg)
      | None \<Rightarrow> Inr (tx\<lparr>bucketsv1 := fmupd key v (bucketsv1 tx)\<rparr>))"

definition idx_Put :: "kv_tx \<Rightarrow> bytes \<Rightarrow> bytes \<Rightarrow> error + kv_tx" where
  "idx_Put tx key v =
     (case fmlookup (failing tx) (Call_Put bucketIndex key) of
        Some msg \<Rightarrow> Inl (ErrStorage msg)
      | None \<Rightarrow> Inr (tx\<lparr>bucketindexv1 := fmupd key v (bucketindexv1 tx)\<rparr>))"

definition b_Delete :: "kv_tx \<Rightarrow> bytes \<Rightarrow> error + kv_tx" where
  "b_Delete tx key =
     (case fmlookup (failing tx) (Call_Delete bucketBucket key) of
        Some msg \<Rightarrow> Inl (ErrStorage msg)
      | None \<Rightarrow> Inr (tx\<lparr>bucketsv1 := fmdrop key (bucketsv1 tx)\<rparr>))"

definition idx_Delete :: "kv_tx \<Rightarrow> bytes \<Rightarrow> error + kv_tx" where
  "idx_Delete tx key =
     (case fmlookup (failing tx) (Call_Delete bucketIndex key) of
        Some msg \<Rightarrow> Inl (ErrStorage msg)
      | None \<Rightarrow> Inr (tx\<lparr>bucketindexv1 := fmdrop key (bucketindexv1 tx)\<rparr>))"

text \<open>
  The entries a forward cursor yields, in order: ascending from the first key not below
  the seek key, or descending from the last key (from the seek key, when one is given),
  for as long as the keys carry the prefix.
\<close>

definition has_prefix :: "bytes option \<Rightarrow> bytes \<Rightarrow> bool" where
  "has_prefix p k = (case p of None \<Rightarrow> True | Some q \<Rightarrow> prefix q k)"

definition kv_ForwardCursor ::
  "kv_tx \<Rightarrow> table \<Rightarrow> (bytes, 'v) fmap \<Rightarrow> bytes \<Rightarrow> CursorDirection \<Rightarrow> bytes option
     \<Rightarrow> error + (bytes \<times> 'v) list" where
  "kv_ForwardCursor tx name m seek dir p =
     (case fmlookup (failing tx) (Call_ForwardCursor name) of
        Some msg \<Rightarrow> Inl (ErrStorage msg)
      | None \<Rightarrow>
          Inr (takeWhile (\<lambda>(k, v). has_prefix p k)
                 (case dir of
                    CursorAscending \<Rightarrow>
                      dropWhile (\<lambda>(k, v). k < seek) (sorted_list_of_fmap m)
                  | CursorDescending \<Rightarrow>
                      dropWhile (\<lambda>(k, v). seek \<noteq> [] \<and> seek < k)
                        (rev (sorted_list_of_fmap m)))))"

definition cursor_Err :: "kv_tx \<Rightarrow> table \<Rightarrow> error option" where
  "cursor_Err tx name =
     (case fmlookup (failing tx) (Call_CursorErr name) of
        Some msg \<Rightarrow> Some (ErrStorage msg)
      | None \<Rightarrow> None)"

subsection \<open>Key builder and lookups\<close>

text \<open>
  \<open>bucketIndexKey\<close>: the source allocates \<open>IDLength + len(name)\<close> bytes and copies the
  encoded organization ID to the front and the name behind it; \<open>Encode\<close> yields exactly
  \<open>IDLength\<close> bytes, so the key is the concatenation.
\<close>

definition bucketIndexKey :: "ID \<Rightarrow> string \<Rightarrow> error + bytes" where
  "bucketIndexKey oid name =
     (case Encode oid of
        Inl err \<Rightarrow> Inl (Error_EInvalid err)
      | Inr orgID \<Rightarrow> Inr (orgID @ name))"

definition uniqueBucketName :: "kv_tx \<Rightarrow> ID \<Rightarrow> string \<Rightarrow> error option" where
  "uniqueBucketName tx oid uname =
     (case bucketIndexKey oid uname of
        Inl err \<Rightarrow> Some err
      | Inr key \<Rightarrow>
          if length key = 0 then Some ErrNameisEmpty
          else (case tx_Bucket tx bucketIndex of
                  Inl err \<Rightarrow> Some err
                | Inr _ \<Rightarrow>
                    (case idx_Get tx key of
                       Inl err \<Rightarrow>
                         if IsNotFound err then None
                         else Some (ErrInternalServiceError err)
                     | Inr _ \<Rightarrow> Some (BucketAlreadyExistsError uname))))"

definition GetBucket :: "kv_tx \<Rightarrow> ID \<Rightarrow> error + Bucket" where
  "GetBucket tx ident =
     (case Encode ident of
        Inl err \<Rightarrow> Inl (InvalidOrgIDError err)
      | Inr encodedID \<Rightarrow>
          (case tx_Bucket tx bucketBucket of
             Inl err \<Rightarrow> Inl err
           | Inr _ \<Rightarrow>
               (case b_Get tx encodedID of
                  Inl err \<Rightarrow>
                    if IsNotFound err then Inl ErrBucketNotFound
                    else Inl (ErrInternalServiceError err)
                | Inr v \<Rightarrow> unmarshalBucket v)))"

definition GetBucketByName :: "kv_tx \<Rightarrow> ID \<Rightarrow> string \<Rightarrow> error + Bucket" where
  "GetBucketByName tx orgID n =
     (case bucketIndexKey orgID n of
        Inl err \<Rightarrow> Inl (Error_EInvalid err)
      | Inr key \<Rightarrow>
          (case tx_Bucket tx bucketIndex of
             Inl err \<Rightarrow> Inl err
           | Inr _ \<Rightarrow>
               (case idx_Get tx key of
                  Inl err \<Rightarrow>
                    if IsNotFound err then
                      (if n = TasksSystemBucketName then
                         Inr \<lparr>ID = TasksSystemBucketID, OrgID = orgID,
                              Type = BucketTypeSystem, Name = TasksSystemBucketName,
                              Description = ''System bucket for task logs'',
                              RetentionPeriod = TasksSystemBucketRetention,
                              CreatedAt = 0, UpdatedAt = 0\<rparr>
                       else if n = MonitoringSystemBucketName then
                         Inr \<lparr>ID = MonitoringSystemBucketID, OrgID = orgID,
                              Type = BucketTypeSystem, Name = MonitoringSystemBucketName,
                              Description = ''System bucket for monitoring logs'',
                              RetentionPeriod = MonitoringSystemBucketRetention,
                              CreatedAt = 0, UpdatedAt = 0\<rparr>
                       else Inl (ErrBucketNotFoundByName n))
                    else Inl err
                | Inr buf \<Rightarrow>
                    (case Decode buf of
                       Inl err \<Rightarrow> Inl (Error_Err err)
                     | Inr ident \<Rightarrow> GetBucket tx ident))))"

subsection \<open>Listing\<close>

record BucketFilter =
  filter_Name :: "string option"
  filter_OrganizationID :: "ID option"

record FindOptions =
  Limit :: int
  Offset :: int
  Descending :: bool

text \<open>
  The loop of \<open>listBucketsByOrg\<close> over the entries the cursor yields; \<open>count\<close> and \<open>bs\<close>
  are the loop's variables. A \<open>break\<close> and the end of the cursor both leave the loop with
  the buckets collected so far. The loop's test of \<open>err\<close> reads the error of opening the
  cursor, which is nil once the loop runs, so it has no branch here.
\<close>

fun listBucketsByOrg_loop ::
  "kv_tx \<Rightarrow> FindOptions \<Rightarrow> (bytes \<times> bytes) list \<Rightarrow> int \<Rightarrow> Bucket list
     \<Rightarrow> error + Bucket list" where
  "listBucketsByOrg_loop tx fo [] count bs = Inr bs"
| "listBucketsByOrg_loop tx fo ((k, v) # rest) count bs =
     (if Offset fo \<noteq> 0 \<and> count < Offset fo
      then listBucketsByOrg_loop tx fo rest (count + 1) bs
      else (case Decode v of
              Inl err \<Rightarrow> Inl (Error_Err err)
            | Inr ident \<Rightarrow>
                (case GetBucket tx ident of
                   Inl err \<Rightarrow> Inl err
                 | Inr b \<Rightarrow>
                     if int (length (bs @ [b])) \<ge> Limit fo then Inr (bs @ [b])
                     else listBucketsByOrg_loop tx fo rest count (bs @ [b]))))"

definition listBucketsByOrg ::
  "kv_tx \<Rightarrow> ID \<Rightarrow> FindOptions \<Rightarrow> Bucket list \<times> error option" where
  "listBucketsByOrg tx orgID fo =
     (case bucketIndexKey orgID [] of
        Inl err \<Rightarrow> ([], Some (Error_EInvalid err))
      | Inr key \<Rightarrow>
          (case tx_Bucket tx bucketIndex of
             Inl err \<Rightarrow> ([], Some err)
           | Inr _ \<Rightarrow>
               (case kv_ForwardCursor tx bucketIndex (bucketindexv1 tx) key
                       CursorAscending (Some key) of
                  Inl err \<Rightarrow> ([], Some err)
                | Inr entries \<Rightarrow>
                    (case listBucketsByOrg_loop tx fo entries 0 [] of
                       Inl err \<Rightarrow> ([], Some err)
                     | Inr bs \<Rightarrow> (bs, cursor_Err tx bucketIndex)))))"

fun ListBuckets_loop ::
  "BucketFilter \<Rightarrow> FindOptions \<Rightarrow> (bytes \<times> blob) list \<Rightarrow> int \<Rightarrow> Bucket list
     \<Rightarrow> error + Bucket list" where
  "ListBuckets_loop flt fo [] count bs = Inr bs"
| "ListBuckets_loop flt fo ((k, v) # rest) count bs =
     (if Offset fo \<noteq> 0 \<and> count < Offset fo
      then ListBuckets_loop flt fo rest (count + 1) bs
      else (case unmarshalBucket v of
              Inl err \<Rightarrow> Inl err
            | Inr b \<Rightarrow>
                (let bs' = (if filter_Name flt = None \<or> filter_Name flt = Some (Name b)
                            then bs @ [b] else bs)
                 in if int (length bs') \<ge> Limit fo then Inr bs'
                    else ListBuckets_loop flt fo rest count bs')))"

text \<open>
  \<open>ListBuckets\<close>: the variadic \<open>opt\<close> is a list, of which only the first element is read; a
  failing call returns the nil slice, here the empty list, with its error.
\<close>

definition ListBuckets ::
  "kv_tx \<Rightarrow> BucketFilter \<Rightarrow> FindOptions list \<Rightarrow> Bucket list \<times> error option" where
  "ListBuckets tx flt opt =
     (if (case filter_OrganizationID flt of None \<Rightarrow> False | Some oid \<Rightarrow> Valid oid)
         \<and> filter_Name flt \<noteq> None
      then ([], Some invalidBucketListRequest)
      else
        (let fo0 = (case opt of
                      [] \<Rightarrow> \<lparr>Limit = DefaultPageSize, Offset = 0, Descending = False\<rparr>
                    | x # _ \<Rightarrow> x);
             fo = (if Limit fo0 > MaxPageSize \<or> Limit fo0 = 0
                   then fo0\<lparr>Limit := MaxPageSize\<rparr> else fo0)
         in case filter_OrganizationID flt of
              Some orgID \<Rightarrow> listBucketsByOrg tx orgID fo
            | None \<Rightarrow>
                (case tx_Bucket tx bucketBucket of
                   Inl err \<Rightarrow> ([], Some err)
                 | Inr _ \<Rightarrow>
                     (case kv_ForwardCursor tx bucketBucket (bucketsv1 tx) []
                             (if Descending fo then CursorDescending else CursorAscending)
                             None of
                        Inl err \<Rightarrow> ([], Some err)
                      | Inr entries \<Rightarrow>
                          (case ListBuckets_loop flt fo entries 0 [] of
                             Inl err \<Rightarrow> ([], Some err)
                           | Inr bs \<Rightarrow> (bs, cursor_Err tx bucketBucket))))))"

subsection \<open>Mutations\<close>

text \<open>
  The mutations return the transaction as they leave it, on failure too, so that a
  partial write is visible. \<open>CreateBucket\<close> also returns the caller's bucket, which the
  source updates through the pointer (ID, timestamps). \<open>generateSafeID\<close>, a method of the
  store outside the given sources, is a parameter; \<open>now1\<close>, \<open>now2\<close> and \<open>now\<close> are the
  readings of \<open>time.Now()\<close>.
\<close>

definition CreateBucket ::
  "(kv_tx \<Rightarrow> table \<Rightarrow> error + ID) \<Rightarrow> kv_tx \<Rightarrow> Bucket \<Rightarrow> nat \<Rightarrow> nat
     \<Rightarrow> error option \<times> Bucket \<times> kv_tx" where
  "CreateBucket generateSafeID tx bucket0 now1 now2 =
     (case (if \<not> Valid (ID bucket0)
            then (case generateSafeID tx bucketBucket of
                    Inl err \<Rightarrow> Inl err
                  | Inr ident \<Rightarrow> Inr (bucket0\<lparr>ID := ident\<rparr>))
            else Inr bucket0) of
        Inl err \<Rightarrow> (Some err, bucket0, tx)
      | Inr bucket1 \<Rightarrow>
     (case Encode (ID bucket1) of
        Inl err \<Rightarrow> (Some (InvalidOrgIDError err), bucket1, tx)
      | Inr encodedID \<Rightarrow>
     (case uniqueBucketName tx (OrgID bucket1) (Name bucket1) of
        Some err \<Rightarrow> (Some err, bucket1, tx)
      | None \<Rightarrow>
     (let bucket = bucket1\<lparr>CreatedAt := now1, UpdatedAt := now2\<rparr> in
     (case tx_Bucket tx bucketIndex of
        Inl err \<Rightarrow> (Some err, bucket, tx)
      | Inr _ \<Rightarrow>
     (case tx_Bucket tx bucketBucket of
        Inl err \<Rightarrow> (Some err, bucket, tx)
      | Inr _ \<Rightarrow>
     (case marshalBucket bucket of
        Inl err \<Rightarrow> (Some err, bucket, tx)
      | Inr v \<Rightarrow>
     (case bucketIndexKey (OrgID bucket) (Name bucket) of
        Inl err \<Rightarrow> (Some err, bucket, tx)
      | Inr ikey \<Rightarrow>
     (case idx_Put tx ikey encodedID of
        Inl err \<Rightarrow> (Some (ErrInternalServiceError err), bucket, tx)
      | Inr tx1 \<Rightarrow>
     (case b_Put tx1 encodedID v of
        Inl err \<Rightarrow> (Some (ErrInternalServiceError err), bucket, tx1)
      | Inr tx2 \<Rightarrow> (None, bucket, tx2)))))))))))"

record BucketUpdate =
  upd_Name :: "string option"
  upd_Description :: "string option"
  upd_RetentionPeriod :: "int option"

text \<open>
  The body of \<open>UpdateBucket\<close>'s rename block (\<open>upd.Name\<close> present and different from the
  current name): the bucket and the transaction as the block leaves them, or the error
  it returns with.
\<close>

definition UpdateBucket_rename ::
  "kv_tx \<Rightarrow> bytes \<Rightarrow> Bucket \<Rightarrow> string \<Rightarrow> (error \<times> kv_tx) + (Bucket \<times> kv_tx)" where
  "UpdateBucket_rename tx encodedID bucket new_name =
     (if Type bucket = BucketTypeSystem then Inl (errRenameSystemBucket, tx)
      else
     (case uniqueBucketName tx (OrgID bucket) new_name of
        Some err \<Rightarrow> Inl (ErrBucketNameNotUnique, tx)
      | None \<Rightarrow>
     (case tx_Bucket tx bucketIndex of
        Inl err \<Rightarrow> Inl (err, tx)
      | Inr _ \<Rightarrow>
     (case bucketIndexKey (OrgID bucket) (Name bucket) of
        Inl err \<Rightarrow> Inl (err, tx)
      | Inr oldIkey \<Rightarrow>
     (case idx_Delete tx oldIkey of
        Inl err \<Rightarrow> Inl (ErrInternalServiceError err, tx)
      | Inr tx1 \<Rightarrow>
     (let bucket' = bucket\<lparr>Name := new_name\<rparr> in
     (case bucketIndexKey (OrgID bucket') (Name bucket') of
        Inl err \<Rightarrow> Inl (err, tx1)
      | Inr newIkey \<Rightarrow>
     (case idx_Put tx1 newIkey encodedID of
        Inl err \<Rightarrow> Inl (ErrInternalServiceError err, tx1)
      | Inr tx2 \<Rightarrow> Inr (bucket', tx2)))))))))"

definition UpdateBucket ::
  "kv_tx \<Rightarrow> ID \<Rightarrow> BucketUpdate \<Rightarrow> nat \<Rightarrow> (error + Bucket) \<times> kv_tx" where
  "UpdateBucket tx ident upd now =
     (case Encode ident of
        Inl err \<Rightarrow> (Inl err, tx)
      | Inr encodedID \<Rightarrow>
     (case GetBucket tx ident of
        Inl err \<Rightarrow> (Inl err, tx)
      | Inr bucket0 \<Rightarrow>
     (let bucket1 = bucket0\<lparr>UpdatedAt := now\<rparr> in
     (case (case upd_Name upd of
              None \<Rightarrow> Inr (bucket1, tx)
            | Some new_name \<Rightarrow>
                if Name bucket1 \<noteq> new_name
                then UpdateBucket_rename tx encodedID bucket1 new_name
                else Inr (bucket1, tx)) of
        Inl (err, tx') \<Rightarrow> (Inl err, tx')
      | Inr (bucket2, tx2) \<Rightarrow>
     (let bucket3 = (case upd_Description upd of
                       None \<Rightarrow> bucket2
                     | Some d \<Rightarrow> bucket2\<lparr>Description := d\<rparr>);
          bucket = (case upd_RetentionPeriod upd of
                      None \<Rightarrow> bucket3
                    | Some r \<Rightarrow> bucket3\<lparr>RetentionPeriod := r\<rparr>)
      in
     (case marshalBucket bucket of
        Inl err \<Rightarrow> (Inl err, tx2)
      | Inr v \<Rightarrow>
     (case tx_Bucket tx2 bucketBucket of
        Inl err \<Rightarrow> (Inl err, tx2)
      | Inr _ \<Rightarrow>
     (case b_Put tx2 encodedID v of
        Inl err \<Rightarrow> (Inl (ErrInternalServiceError err), tx2)
      | Inr tx3 \<Rightarrow> (Inr bucket, tx3)))))))))"

definition DeleteBucket :: "kv_tx \<Rightarrow> ID \<Rightarrow> error option \<times> kv_tx" where
  "DeleteBucket tx ident =
     (case GetBucket tx ident of
        Inl err \<Rightarrow> (Some err, tx)
      | Inr bucket \<Rightarrow>
     (case Encode ident of
        Inl err \<Rightarrow> (Some (InvalidOrgIDError err), tx)
      | Inr encodedID \<Rightarrow>
     (case tx_Bucket tx bucketIndex of
        Inl err \<Rightarrow> (Some err, tx)
      | Inr _ \<Rightarrow>
     (case bucketIndexKey (OrgID bucket) (Name bucket) of
        Inl err \<Rightarrow> (Some err, tx)
      | Inr ikey \<Rightarrow>
     (case idx_Delete tx ikey of
        Inl err \<Rightarrow> (Some (ErrInternalServiceError err), tx)
      | Inr tx1 \<Rightarrow>
     (case tx_Bucket tx1 bucketBucket of
        Inl err \<Rightarrow> (Some err, tx1)
      | Inr _ \<Rightarrow>
     (case b_Delete tx1 encodedID of
        Inl err \<Rightarrow> (Some (ErrInternalServiceError err), tx1)
      | Inr tx2 \<Rightarrow> (None, tx2))))))))"

subsection \<open>Invariant I1 and the states used as examples\<close>

text \<open>
  I1, the bijection between the two tables: every primary record decodes, the index
  holds an entry from the key of the record's current \<open>OrgID\<close> and \<open>Name\<close> to the
  record's primary key, no other index entry leads to that primary key, and every index
  entry leads to a primary record. Synthesized System buckets are in neither table.
\<close>

definition I1 :: "kv_tx \<Rightarrow> bool" where
  "I1 tx \<longleftrightarrow>
     fmpred (\<lambda>encodedID v.
        case unmarshalBucket v of
          Inl _ \<Rightarrow> False
        | Inr b \<Rightarrow>
            (case bucketIndexKey (OrgID b) (Name b) of
               Inl _ \<Rightarrow> False
             | Inr ikey \<Rightarrow>
                 fmlookup (bucketindexv1 tx) ikey = Some encodedID
                 \<and> fmpred (\<lambda>k e. e = encodedID \<longrightarrow> k = ikey) (bucketindexv1 tx)))
       (bucketsv1 tx)
     \<and> fmpred (\<lambda>ikey encodedID. fmlookup (bucketsv1 tx) encodedID \<noteq> None)
         (bucketindexv1 tx)"

text \<open>
  The records that \<open>json.Unmarshal\<close> yields hold valid UTF-8 strings only, so the documents
  of a primary table are of this kind: \<open>Doc u\<close> is the decoding of its bytes.
\<close>

definition docs_decoded :: "kv_tx \<Rightarrow> bool" where
  "docs_decoded tx \<longleftrightarrow>
     fmpred (\<lambda>encodedID v.
        case v of
          Doc u \<Rightarrow> ValidString (Name u) \<and> ValidString (Description u)
        | Junk _ \<Rightarrow> True)
       (bucketsv1 tx)"

text \<open>An ID is stored when its encoding is a key of the primary table.\<close>

definition stored_ID :: "kv_tx \<Rightarrow> ID \<Rightarrow> bool" where
  "stored_ID tx ident =
     (case Encode ident of
        Inl _ \<Rightarrow> False
      | Inr encodedID \<Rightarrow> fmlookup (bucketsv1 tx) encodedID \<noteq> None)"

text \<open>A transaction in which no engine call fails.\<close>

definition no_faults :: "kv_tx \<Rightarrow> bool" where
  "no_faults tx \<longleftrightarrow> failing tx = fmempty"

definition tx_empty :: kv_tx where
  "tx_empty = \<lparr>bucketsv1 = fmempty, bucketindexv1 = fmempty, failing = fmempty\<rparr>"

definition new_bucket :: "ID \<Rightarrow> ID \<Rightarrow> BucketType \<Rightarrow> string \<Rightarrow> Bucket" where
  "new_bucket ident oid ty n =
     \<lparr>ID = ident, OrgID = oid, Type = ty, Name = n, Description = [],
      RetentionPeriod = 0, CreatedAt = 0, UpdatedAt = 0\<rparr>"

text \<open>Two identifier generators: one that fails, one that returns a given ID.\<close>

definition failing_generator :: "kv_tx \<Rightarrow> table \<Rightarrow> error + ID" where
  "failing_generator tx name = Inl ErrFailureGeneratingID"

definition constant_generator :: "ID \<Rightarrow> kv_tx \<Rightarrow> table \<Rightarrow> error + ID" where
  "constant_generator ident tx name = Inr ident"

text \<open>The state after creating the given buckets, in turn, at time 1.\<close>

fun created :: "kv_tx \<Rightarrow> Bucket list \<Rightarrow> kv_tx" where
  "created tx [] = tx"
| "created tx (b # bs) = created (snd (snd (CreateBucket failing_generator tx b 1 1))) bs"

text \<open>Organization 1 with the buckets \<open>c\<close>, \<open>a\<close>, \<open>b\<close> (IDs 3, 1, 2), created in this order.\<close>

definition tx_abc :: kv_tx where
  "tx_abc = created tx_empty
     [new_bucket 3 1 BucketTypeUser ''c'', new_bucket 1 1 BucketTypeUser ''a'',
      new_bucket 2 1 BucketTypeUser ''b'']"

text \<open>Organization 1 with the user bucket \<open>metrics\<close> (ID 5).\<close>

definition tx_metrics :: kv_tx where
  "tx_metrics = created tx_empty [new_bucket 5 1 BucketTypeUser ''metrics'']"

text \<open>Organization 1 with a stored System bucket under the reserved name \<open>_tasks\<close> (ID 10).\<close>

definition tx_tasks :: kv_tx where
  "tx_tasks = created tx_empty [new_bucket 10 1 BucketTypeSystem ''_tasks'']"

text \<open>\<open>tx_metrics\<close> with a storage engine whose index read of a given key fails.\<close>

definition tx_index_read_fails :: "bytes \<Rightarrow> kv_tx" where
  "tx_index_read_fails key =
     tx_metrics\<lparr>failing := fmupd (Call_Get bucketIndex key) ''i/o error'' fmempty\<rparr>"

text \<open>A patch that only renames, and the filter and options of the listing examples.\<close>

definition rename_to :: "string \<Rightarrow> BucketUpdate" where
  "rename_to n = \<lparr>upd_Name = Some n, upd_Description = None, upd_RetentionPeriod = None\<rparr>"

definition by_org :: "ID \<Rightarrow> BucketFilter" where
  "by_org oid = \<lparr>filter_Name = None, filter_OrganizationID = Some oid\<rparr>"

definition by_org_and_name :: "ID \<Rightarrow> string \<Rightarrow> BucketFilter" where
  "by_org_and_name oid n = \<lparr>filter_Name = Some n, filter_OrganizationID = Some oid\<rparr>"

definition unfiltered :: BucketFilter where
  "unfiltered = \<lparr>filter_Name = None, filter_OrganizationID = None\<rparr>"

definition page :: "int \<Rightarrow> bool \<Rightarrow> FindOptions" where
  "page lim desc = \<lparr>Limit = lim, Offset = 0, Descending = desc\<rparr>"

section \<open>The identifier codec round-trips\<close>

lemma length_hex_fixed [simp]: "length (hex_fixed k n) = k"
  by (induction k arbitrary: n) simp_all

lemma hexval_hexdigit: "d < 16 \<Longrightarrow> hexval (hexdigit d) = Some d"
  by (simp add: hexval_def hexdigit_def Let_def)

lemma parse_hex_append:
  "parse_hex acc (xs @ ys) = (case parse_hex acc xs of None \<Rightarrow> None | Some a \<Rightarrow> parse_hex a ys)"
  by (induction xs arbitrary: acc) (simp_all split: option.splits)

lemma parse_hex_hex_fixed: "parse_hex acc (hex_fixed k n) = Some (acc * 16 ^ k + n mod 16 ^ k)"
proof (induction k arbitrary: n)
  case 0
  show ?case by simp
next
  case (Suc k)
  have d: "n mod 16 < 16" by simp
  have "n mod (16 * 16 ^ k) = 16 * (n div 16 mod 16 ^ k) + n mod 16"
    by (rule mod_mult2_eq)
  then show ?case
    by (simp add: parse_hex_append Suc.IH hexval_hexdigit [OF d] algebra_simps)
qed

lemma Encode_length: "Encode i = Inr b \<Longrightarrow> length b = IDLength"
  by (auto simp: Encode_def split: if_splits)

lemma unat_ID_bound: "unat (i :: ID) < 16 ^ IDLength"
proof -
  have "unat i < 2 ^ 64" using unsigned_less [of i] by simp
  then show ?thesis by (simp add: IDLength_def)
qed

lemma Decode_Encode: "Encode i = Inr b \<Longrightarrow> Decode b = Inr i"
proof -
  assume e: "Encode i = Inr b"
  then have v: "Valid i" and b: "b = hex_fixed IDLength (unat i)"
    by (auto simp: Encode_def split: if_splits)
  have "parse_hex 0 b = Some (unat i)"
    using unat_ID_bound [of i] by (simp add: b parse_hex_hex_fixed)
  then show ?thesis using v by (simp add: Decode_def b)
qed

lemma Encode_inj: "Encode i = Inr b \<Longrightarrow> Encode j = Inr b \<Longrightarrow> i = j"
proof -
  assume a: "Encode i = Inr b" and b: "Encode j = Inr b"
  have "Decode b = Inr i" using a by (rule Decode_Encode)
  moreover have "Decode b = Inr j" using b by (rule Decode_Encode)
  ultimately show "i = j" by simp
qed

lemma bucketIndexKey_Inr:
  "bucketIndexKey oid n = Inr key \<longleftrightarrow> (\<exists>e. Encode oid = Inr e \<and> key = e @ n)"
  by (auto simp: bucketIndexKey_def split: sum.splits)

lemma bucketIndexKey_inj:
  "bucketIndexKey oid n = Inr key \<Longrightarrow> bucketIndexKey oid' n' = Inr key \<Longrightarrow> oid = oid' \<and> n = n'"
proof -
  assume a: "bucketIndexKey oid n = Inr key" and b: "bucketIndexKey oid' n' = Inr key"
  from a obtain e where e: "Encode oid = Inr e" "key = e @ n"
    by (auto simp: bucketIndexKey_Inr)
  from b obtain e' where e': "Encode oid' = Inr e'" "key = e' @ n'"
    by (auto simp: bucketIndexKey_Inr)
  have "length e = length e'"
    using Encode_length [OF e(1)] Encode_length [OF e'(1)] by simp
  with e(2) e'(2) have "e = e'" "n = n'" by simp_all
  with e(1) e'(1) show ?thesis by (auto dest: Encode_inj)
qed


section \<open>What the record codec reads back\<close>

lemma rune_width_le_length: "rune_width s \<le> length s"
  by (cases s) (auto simp: Let_def split: list.splits)

lemma rune_width_le_4: "rune_width s \<le> 4"
  by (cases s) (auto simp: Let_def split: list.splits)

lemma rune_width_prefix:
  "0 < rune_width s \<Longrightarrow> rune_width (take (rune_width s) s @ ys) = rune_width s"
  by (cases s) (auto simp: Let_def split: list.splits if_splits)

lemma rune_width_RuneError: "rune_width (RuneError @ ys) = 3"
  by (simp add: RuneError_def byte_in_def accept_lo_def accept_hi_def)

lemma coerce_utf8_valid_head:
  assumes "0 < rune_width s"
  shows "coerce_utf8 (take (rune_width s) s @ ys) = take (rune_width s) s @ coerce_utf8 ys"
proof -
  let ?n = "rune_width s"
  let ?p = "take ?n s"
  have len: "length ?p = ?n" using rune_width_le_length [of s] by simp
  from assms len obtain c cs where p: "?p = c # cs" by (cases ?p) auto
  have w: "rune_width (?p @ ys) = ?n" using assms by (rule rune_width_prefix)
  have "coerce_utf8 ((c # cs) @ ys)
          = take ?n ((c # cs) @ ys) @ coerce_utf8 (drop ?n ((c # cs) @ ys))"
    using w assms unfolding p by simp
  also have "\<dots> = ?p @ coerce_utf8 ys" using len unfolding p [symmetric] by simp
  finally show ?thesis unfolding p .
qed

lemma coerce_utf8_RuneError: "coerce_utf8 (RuneError @ ys) = RuneError @ coerce_utf8 ys"
proof -
  have "RuneError @ ys = CHR 0xEF # CHR 0xBF # CHR 0xBD # ys" by (simp add: RuneError_def)
  moreover have "rune_width (CHR 0xEF # CHR 0xBF # CHR 0xBD # ys) = 3"
    using rune_width_RuneError [of ys] by (simp add: RuneError_def)
  ultimately show ?thesis by (simp add: RuneError_def)
qed

lemma coerce_utf8_idem: "coerce_utf8 (coerce_utf8 s) = coerce_utf8 s"
proof (induction s rule: coerce_utf8.induct)
  case 1
  show ?case by simp
next
  case (2 c cs)
  show ?case
  proof (cases "rune_width (c # cs) = 0")
    case True
    with 2(1) show ?thesis by (simp add: coerce_utf8_RuneError)
  next
    case False
    then have pos: "0 < rune_width (c # cs)" by simp
    have "coerce_utf8 (coerce_utf8 (c # cs))
            = coerce_utf8 (take (rune_width (c # cs)) (c # cs)
                @ coerce_utf8 (drop (rune_width (c # cs)) (c # cs)))"
      using False by simp
    also have "\<dots> = take (rune_width (c # cs)) (c # cs)
                @ coerce_utf8 (coerce_utf8 (drop (rune_width (c # cs)) (c # cs)))"
      by (rule coerce_utf8_valid_head [OF pos])
    also have "\<dots> = coerce_utf8 (c # cs)"
      using False 2(2) by simp
    finally show ?thesis .
  qed
qed

lemma ValidString_coerce_utf8: "ValidString (coerce_utf8 s)"
  by (simp add: ValidString_def coerce_utf8_idem)

lemma json_roundtrip_fields [simp]:
  "ID (json_roundtrip u) = ID u"
  "OrgID (json_roundtrip u) = OrgID u"
  "Type (json_roundtrip u) = Type u"
  "Name (json_roundtrip u) = coerce_utf8 (Name u)"
  "Description (json_roundtrip u) = coerce_utf8 (Description u)"
  by (simp_all add: json_roundtrip_def)

lemma json_roundtrip_valid:
  "ValidString (Name u) \<Longrightarrow> ValidString (Description u) \<Longrightarrow> json_roundtrip u = u"
  by (simp add: json_roundtrip_def ValidString_def)

lemma docs_decoded_iff:
  "docs_decoded tx \<longleftrightarrow>
     (\<forall>e u. fmlookup (bucketsv1 tx) e = Some (Doc u) \<longrightarrow>
        ValidString (Name u) \<and> ValidString (Description u))"
  unfolding docs_decoded_def fmpred_iff
  by (auto split: blob.splits)

section \<open>Reading a record\<close>

lemma GetBucket_Inr:
  "GetBucket tx ident = Inr b \<Longrightarrow>
     \<exists>e. Encode ident = Inr e \<and> fmlookup (bucketsv1 tx) e = Some (Doc b)
         \<and> tx_Bucket tx bucketBucket = Inr ()"
  by (auto simp: GetBucket_def b_Get_def kv_Get_def unmarshalBucket_def
      split: sum.splits option.splits if_splits blob.splits)

section \<open>Engine calls that succeed\<close>

lemma no_faults_tx_Bucket: "no_faults tx \<Longrightarrow> tx_Bucket tx name = Inr ()"
  by (simp add: no_faults_def tx_Bucket_def)

lemma no_faults_idx_Get:
  "no_faults tx \<Longrightarrow>
     idx_Get tx key
       = (case fmlookup (bucketindexv1 tx) key of None \<Rightarrow> Inl ErrKeyNotFound | Some v \<Rightarrow> Inr v)"
  by (simp add: no_faults_def idx_Get_def kv_Get_def)

lemma no_faults_b_Get:
  "no_faults tx \<Longrightarrow>
     b_Get tx key
       = (case fmlookup (bucketsv1 tx) key of None \<Rightarrow> Inl ErrKeyNotFound | Some v \<Rightarrow> Inr v)"
  by (simp add: no_faults_def b_Get_def kv_Get_def)


lemma idx_Put_Inr:
  "idx_Put tx key v = Inr tx' \<Longrightarrow> tx' = tx\<lparr>bucketindexv1 := fmupd key v (bucketindexv1 tx)\<rparr>"
  by (auto simp: idx_Put_def split: option.splits)

lemma b_Put_Inr:
  "b_Put tx key v = Inr tx' \<Longrightarrow> tx' = tx\<lparr>bucketsv1 := fmupd key v (bucketsv1 tx)\<rparr>"
  by (auto simp: b_Put_def split: option.splits)

lemma idx_Delete_Inr:
  "idx_Delete tx key = Inr tx' \<Longrightarrow> tx' = tx\<lparr>bucketindexv1 := fmdrop key (bucketindexv1 tx)\<rparr>"
  by (auto simp: idx_Delete_def split: option.splits)

lemma b_Delete_Inr:
  "b_Delete tx key = Inr tx' \<Longrightarrow> tx' = tx\<lparr>bucketsv1 := fmdrop key (bucketsv1 tx)\<rparr>"
  by (auto simp: b_Delete_def split: option.splits)

lemma uniqueBucketName_None:
  "uniqueBucketName tx oid uname = None \<Longrightarrow>
     \<exists>key. bucketIndexKey oid uname = Inr key \<and> fmlookup (bucketindexv1 tx) key = None"
  by (auto simp: uniqueBucketName_def idx_Get_def kv_Get_def IsNotFound_def
      split: sum.splits if_splits option.splits)

lemma CreateBucket_None:
  assumes "CreateBucket gen tx b now1 now2 = (None, b', tx')"
  shows "\<exists>e key. Encode (ID b') = Inr e
           \<and> bucketIndexKey (OrgID b) (Name b) = Inr key
           \<and> fmlookup (bucketindexv1 tx) key = None
           \<and> bucketindexv1 tx' = fmupd key e (bucketindexv1 tx)
           \<and> bucketsv1 tx' = fmupd e (Doc (json_roundtrip b')) (bucketsv1 tx)
           \<and> failing tx' = failing tx
           \<and> b' = b\<lparr>ID := ID b', CreatedAt := now1, UpdatedAt := now2\<rparr>
           \<and> OrgID b' = OrgID b \<and> Name b' = Name b
           \<and> (Valid (ID b) \<longrightarrow> ID b' = ID b)"
  using assms
  by (auto simp: CreateBucket_def Let_def marshalBucket_def
      split: sum.splits option.splits if_splits
      dest!: idx_Put_Inr b_Put_Inr uniqueBucketName_None)

lemma DeleteBucket_None:
  assumes "DeleteBucket tx ident = (None, tx')"
  shows "\<exists>e b key. Encode ident = Inr e
           \<and> GetBucket tx ident = Inr b
           \<and> fmlookup (bucketsv1 tx) e = Some (Doc b)
           \<and> bucketIndexKey (OrgID b) (Name b) = Inr key
           \<and> bucketindexv1 tx' = fmdrop key (bucketindexv1 tx)
           \<and> bucketsv1 tx' = fmdrop e (bucketsv1 tx)
           \<and> failing tx' = failing tx"
  using assms
  by (auto simp: DeleteBucket_def
      split: sum.splits option.splits if_splits
      dest!: idx_Delete_Inr b_Delete_Inr GetBucket_Inr)

lemma UpdateBucket_rename_Inr:
  assumes "UpdateBucket_rename tx e b new_name = Inr (b', tx')"
  shows "\<exists>old new. bucketIndexKey (OrgID b) (Name b) = Inr old
           \<and> bucketIndexKey (OrgID b) new_name = Inr new
           \<and> fmlookup (bucketindexv1 tx) new = None
           \<and> bucketindexv1 tx' = fmupd new e (fmdrop old (bucketindexv1 tx))
           \<and> bucketsv1 tx' = bucketsv1 tx
           \<and> failing tx' = failing tx
           \<and> b' = b\<lparr>Name := new_name\<rparr>"
  using assms
  by (auto simp: UpdateBucket_rename_def Let_def
      split: sum.splits option.splits if_splits
      dest!: idx_Put_Inr idx_Delete_Inr uniqueBucketName_None)

lemma UpdateBucket_Inr:
  assumes "UpdateBucket tx ident upd now = (Inr b', tx')"
  shows "\<exists>e b. Encode ident = Inr e
           \<and> fmlookup (bucketsv1 tx) e = Some (Doc b)
           \<and> OrgID b' = OrgID b
           \<and> bucketsv1 tx' = fmupd e (Doc (json_roundtrip b')) (bucketsv1 tx)
           \<and> failing tx' = failing tx
           \<and> ((Name b' = Name b \<and> bucketindexv1 tx' = bucketindexv1 tx)
              \<or> (\<exists>old new. Name b' \<noteq> Name b
                    \<and> upd_Name upd = Some (Name b')
                    \<and> bucketIndexKey (OrgID b) (Name b) = Inr old
                    \<and> bucketIndexKey (OrgID b) (Name b') = Inr new
                    \<and> fmlookup (bucketindexv1 tx) new = None
                    \<and> bucketindexv1 tx' = fmupd new e (fmdrop old (bucketindexv1 tx))))"
  using assms
  apply (simp add: UpdateBucket_def Let_def marshalBucket_def
      split: sum.splits option.splits if_splits prod.splits)
  apply (auto dest!: GetBucket_Inr b_Put_Inr UpdateBucket_rename_Inr split: option.splits)
  done

section \<open>Invariant I1 in terms of lookups\<close>

lemma I1_record_iff:
  "(case unmarshalBucket v of
      Inl _ \<Rightarrow> False
    | Inr b \<Rightarrow>
        (case bucketIndexKey (OrgID b) (Name b) of
           Inl _ \<Rightarrow> False
         | Inr ikey \<Rightarrow>
             fmlookup idx ikey = Some e \<and> fmpred (\<lambda>k e'. e' = e \<longrightarrow> k = ikey) idx))
   \<longleftrightarrow> (\<exists>b key. v = Doc b \<and> bucketIndexKey (OrgID b) (Name b) = Inr key
           \<and> fmlookup idx key = Some e
           \<and> (\<forall>k. fmlookup idx k = Some e \<longrightarrow> k = key))"
proof (cases v)
  case (Doc b)
  show ?thesis
  proof (cases "bucketIndexKey (OrgID b) (Name b)")
    case (Inl err)
    then show ?thesis by (simp add: Doc unmarshalBucket_def)
  next
    case (Inr key)
    then show ?thesis by (simp add: Doc unmarshalBucket_def fmpred_iff)
  qed
next
  case (Junk x)
  then show ?thesis by (simp add: unmarshalBucket_def)
qed

lemma I1_iff:
  "I1 tx \<longleftrightarrow>
     (\<forall>e v. fmlookup (bucketsv1 tx) e = Some v \<longrightarrow>
        (\<exists>b key. v = Doc b \<and> bucketIndexKey (OrgID b) (Name b) = Inr key
           \<and> fmlookup (bucketindexv1 tx) key = Some e
           \<and> (\<forall>k. fmlookup (bucketindexv1 tx) k = Some e \<longrightarrow> k = key)))
     \<and> (\<forall>k e. fmlookup (bucketindexv1 tx) k = Some e \<longrightarrow>
          (\<exists>v. fmlookup (bucketsv1 tx) e = Some v))"
  unfolding I1_def I1_record_iff
  by (simp add: fmpred_iff)

lemma I1_record:
  assumes "I1 tx" and "fmlookup (bucketsv1 tx) e = Some v"
  shows "\<exists>b key. v = Doc b \<and> bucketIndexKey (OrgID b) (Name b) = Inr key
           \<and> fmlookup (bucketindexv1 tx) key = Some e
           \<and> (\<forall>k. fmlookup (bucketindexv1 tx) k = Some e \<longrightarrow> k = key)"
  using assms unfolding I1_iff by blast

lemma I1_entry:
  assumes "I1 tx" and "fmlookup (bucketindexv1 tx) k = Some e"
  shows "\<exists>v. fmlookup (bucketsv1 tx) e = Some v"
  using assms unfolding I1_iff by blast

section \<open>Each mutation preserves I1\<close>

lemma I1_DeleteBucket:
  assumes inv: "I1 tx" and del: "DeleteBucket tx ident = (None, tx')"
  shows "I1 tx'"
proof -
  from DeleteBucket_None [OF del] obtain e b key where
    rec: "fmlookup (bucketsv1 tx) e = Some (Doc b)"
    and key: "bucketIndexKey (OrgID b) (Name b) = Inr key"
    and idx': "bucketindexv1 tx' = fmdrop key (bucketindexv1 tx)"
    and prim': "bucketsv1 tx' = fmdrop e (bucketsv1 tx)"
    by blast
  from I1_record [OF inv rec] key
  have at_key: "fmlookup (bucketindexv1 tx) key = Some e"
    and one: "\<And>k. fmlookup (bucketindexv1 tx) k = Some e \<Longrightarrow> k = key"
    by auto
  have idx_eq: "\<And>k. fmlookup (bucketindexv1 tx') k
                  = (if k = key then None else fmlookup (bucketindexv1 tx) k)"
    by (simp add: idx')
  have prim_eq: "\<And>k. fmlookup (bucketsv1 tx') k
                  = (if k = e then None else fmlookup (bucketsv1 tx) k)"
    by (simp add: prim')
  show ?thesis
    unfolding I1_iff
  proof (intro conjI allI impI)
    fix e' v assume a: "fmlookup (bucketsv1 tx') e' = Some v"
    have ne: "e' \<noteq> e" using a unfolding prim_eq by (simp split: if_splits)
    have old: "fmlookup (bucketsv1 tx) e' = Some v"
      using a unfolding prim_eq by (simp split: if_splits)
    from I1_record [OF inv old] obtain b' key' where
      r: "v = Doc b'" "bucketIndexKey (OrgID b') (Name b') = Inr key'"
         "fmlookup (bucketindexv1 tx) key' = Some e'"
      and u: "\<forall>k. fmlookup (bucketindexv1 tx) k = Some e' \<longrightarrow> k = key'"
      by blast
    have nk: "key' \<noteq> key" using at_key r(3) ne by auto
    have 1: "fmlookup (bucketindexv1 tx') key' = Some e'"
      unfolding idx_eq using nk r(3) by simp
    have 2: "\<forall>k. fmlookup (bucketindexv1 tx') k = Some e' \<longrightarrow> k = key'"
    proof (intro allI impI)
      fix k assume "fmlookup (bucketindexv1 tx') k = Some e'"
      then have "fmlookup (bucketindexv1 tx) k = Some e'"
        unfolding idx_eq by (simp split: if_splits)
      with u show "k = key'" by blast
    qed
    from r(1,2) 1 2
    show "\<exists>b key. v = Doc b \<and> bucketIndexKey (OrgID b) (Name b) = Inr key
           \<and> fmlookup (bucketindexv1 tx') key = Some e'
           \<and> (\<forall>k. fmlookup (bucketindexv1 tx') k = Some e' \<longrightarrow> k = key)"
      by blast
  next
    fix k e' assume a: "fmlookup (bucketindexv1 tx') k = Some e'"
    have nk: "k \<noteq> key" using a unfolding idx_eq by (simp split: if_splits)
    have old: "fmlookup (bucketindexv1 tx) k = Some e'"
      using a unfolding idx_eq by (simp split: if_splits)
    have "e' \<noteq> e" using one [of k] old nk by blast
    with I1_entry [OF inv old] show "\<exists>v. fmlookup (bucketsv1 tx') e' = Some v"
      unfolding prim_eq by simp
  qed
qed

lemma I1_CreateBucket:
  assumes inv: "I1 tx" and cr: "CreateBucket gen tx b now1 now2 = (None, b', tx')"
    and fresh: "\<not> stored_ID tx (ID b')"
    and valid: "ValidString (Name b)"
  shows "I1 tx'"
proof -
  from CreateBucket_None [OF cr] obtain e key where
    enc: "Encode (ID b') = Inr e"
    and key: "bucketIndexKey (OrgID b) (Name b) = Inr key"
    and free: "fmlookup (bucketindexv1 tx) key = None"
    and idx': "bucketindexv1 tx' = fmupd key e (bucketindexv1 tx)"
    and prim': "bucketsv1 tx' = fmupd e (Doc (json_roundtrip b')) (bucketsv1 tx)"
    and same: "OrgID b' = OrgID b" "Name b' = Name b"
    by blast
  have key': "bucketIndexKey (OrgID (json_roundtrip b')) (Name (json_roundtrip b')) = Inr key"
    using key same valid by (simp add: ValidString_def)
  from fresh enc have new: "fmlookup (bucketsv1 tx) e = None"
    by (simp add: stored_ID_def)
  have unref: "\<And>k. fmlookup (bucketindexv1 tx) k \<noteq> Some e"
  proof
    fix k assume "fmlookup (bucketindexv1 tx) k = Some e"
    from I1_entry [OF inv this] new show False by simp
  qed
  have idx_eq: "\<And>k. fmlookup (bucketindexv1 tx') k
                  = (if k = key then Some e else fmlookup (bucketindexv1 tx) k)"
    by (auto simp: idx')
  have prim_eq: "\<And>k. fmlookup (bucketsv1 tx') k
                  = (if k = e then Some (Doc (json_roundtrip b')) else fmlookup (bucketsv1 tx) k)"
    by (auto simp: prim')
  show ?thesis
    unfolding I1_iff
  proof (intro conjI allI impI)
    fix e' v assume a: "fmlookup (bucketsv1 tx') e' = Some v"
    show "\<exists>b key. v = Doc b \<and> bucketIndexKey (OrgID b) (Name b) = Inr key
           \<and> fmlookup (bucketindexv1 tx') key = Some e'
           \<and> (\<forall>k. fmlookup (bucketindexv1 tx') k = Some e' \<longrightarrow> k = key)"
    proof (cases "e' = e")
      case True
      have v: "v = Doc (json_roundtrip b')" using a True unfolding prim_eq by simp
      have 1: "fmlookup (bucketindexv1 tx') key = Some e'"
        unfolding idx_eq using True by simp
      have 2: "\<forall>k. fmlookup (bucketindexv1 tx') k = Some e' \<longrightarrow> k = key"
      proof (intro allI impI)
        fix k assume "fmlookup (bucketindexv1 tx') k = Some e'"
        then show "k = key"
          unfolding idx_eq using unref [of k] True by (simp split: if_splits)
      qed
      from v key' 1 2 show ?thesis by blast
    next
      case False
      have old: "fmlookup (bucketsv1 tx) e' = Some v"
        using a False unfolding prim_eq by simp
      from I1_record [OF inv old] obtain b0 key0 where
        r: "v = Doc b0" "bucketIndexKey (OrgID b0) (Name b0) = Inr key0"
           "fmlookup (bucketindexv1 tx) key0 = Some e'"
        and u: "\<forall>k. fmlookup (bucketindexv1 tx) k = Some e' \<longrightarrow> k = key0"
        by blast
      have nk: "key0 \<noteq> key" using free r(3) by auto
      have 1: "fmlookup (bucketindexv1 tx') key0 = Some e'"
        unfolding idx_eq using nk r(3) by simp
      have 2: "\<forall>k. fmlookup (bucketindexv1 tx') k = Some e' \<longrightarrow> k = key0"
      proof (intro allI impI)
        fix k assume "fmlookup (bucketindexv1 tx') k = Some e'"
        then have "fmlookup (bucketindexv1 tx) k = Some e'"
          unfolding idx_eq using False by (simp split: if_splits)
        with u show "k = key0" by blast
      qed
      from r(1,2) 1 2 show ?thesis by blast
    qed
  next
    fix k e' assume a: "fmlookup (bucketindexv1 tx') k = Some e'"
    show "\<exists>v. fmlookup (bucketsv1 tx') e' = Some v"
    proof (cases "e' = e")
      case True
      then show ?thesis unfolding prim_eq by simp
    next
      case False
      have "fmlookup (bucketindexv1 tx) k = Some e'"
        using a False unfolding idx_eq by (simp split: if_splits)
      from I1_entry [OF inv this] False show ?thesis unfolding prim_eq by simp
    qed
  qed
qed

lemma I1_UpdateBucket:
  assumes inv: "I1 tx" and up: "UpdateBucket tx ident upd now = (Inr b', tx')"
    and docs: "docs_decoded tx"
    and valid: "\<And>n. upd_Name upd = Some n \<Longrightarrow> ValidString n"
  shows "I1 tx'"
proof -
  from UpdateBucket_Inr [OF up] obtain e b where
    rec: "fmlookup (bucketsv1 tx) e = Some (Doc b)"
    and org: "OrgID b' = OrgID b"
    and prim': "bucketsv1 tx' = fmupd e (Doc (json_roundtrip b')) (bucketsv1 tx)"
    and cases: "(Name b' = Name b \<and> bucketindexv1 tx' = bucketindexv1 tx)
              \<or> (\<exists>old new. Name b' \<noteq> Name b
                    \<and> upd_Name upd = Some (Name b')
                    \<and> bucketIndexKey (OrgID b) (Name b) = Inr old
                    \<and> bucketIndexKey (OrgID b) (Name b') = Inr new
                    \<and> fmlookup (bucketindexv1 tx) new = None
                    \<and> bucketindexv1 tx' = fmupd new e (fmdrop old (bucketindexv1 tx)))"
    by blast
  from I1_record [OF inv rec] obtain b0 old where
    b0: "Doc b = Doc b0"
    and old0: "bucketIndexKey (OrgID b0) (Name b0) = Inr old"
    and at_old: "fmlookup (bucketindexv1 tx) old = Some e"
    and one: "\<forall>k. fmlookup (bucketindexv1 tx) k = Some e \<longrightarrow> k = old"
    by blast
  from b0 old0 have old: "bucketIndexKey (OrgID b) (Name b) = Inr old"
    by simp
  have prim_eq: "\<And>k. fmlookup (bucketsv1 tx') k
                  = (if k = e then Some (Doc (json_roundtrip b')) else fmlookup (bucketsv1 tx) k)"
    by (auto simp: prim')
  have entries: "\<exists>v. fmlookup (bucketsv1 tx') e' = Some v"
    if "e' = e \<or> fmlookup (bucketindexv1 tx) k = Some e'" for k e'
  proof (cases "e' = e")
    case True
    then show ?thesis unfolding prim_eq by simp
  next
    case False
    with that have "fmlookup (bucketindexv1 tx) k = Some e'" by simp
    from I1_entry [OF inv this] False show ?thesis unfolding prim_eq by simp
  qed
  from cases show ?thesis
  proof
    assume same: "Name b' = Name b \<and> bucketindexv1 tx' = bucketindexv1 tx"
    then have idx_eq: "bucketindexv1 tx' = bucketindexv1 tx" by simp
    have "ValidString (Name b)"
      using docs rec unfolding docs_decoded_iff by blast
    then have key': "bucketIndexKey (OrgID (json_roundtrip b')) (Name (json_roundtrip b')) = Inr old"
      using old org same by (simp add: ValidString_def)
    show ?thesis
      unfolding I1_iff idx_eq
    proof (intro conjI allI impI)
      fix e' v assume a: "fmlookup (bucketsv1 tx') e' = Some v"
      show "\<exists>b key. v = Doc b \<and> bucketIndexKey (OrgID b) (Name b) = Inr key
           \<and> fmlookup (bucketindexv1 tx) key = Some e'
           \<and> (\<forall>k. fmlookup (bucketindexv1 tx) k = Some e' \<longrightarrow> k = key)"
      proof (cases "e' = e")
        case True
        have v: "v = Doc (json_roundtrip b')" using a True unfolding prim_eq by simp
        from v key' at_old one True show ?thesis by blast
      next
        case False
        have "fmlookup (bucketsv1 tx) e' = Some v"
          using a False unfolding prim_eq by simp
        from I1_record [OF inv this] show ?thesis .
      qed
    next
      fix k e' assume "fmlookup (bucketindexv1 tx) k = Some e'"
      then show "\<exists>v. fmlookup (bucketsv1 tx') e' = Some v"
        using entries by blast
    qed
  next
    assume "\<exists>old new. Name b' \<noteq> Name b
                    \<and> upd_Name upd = Some (Name b')
                    \<and> bucketIndexKey (OrgID b) (Name b) = Inr old
                    \<and> bucketIndexKey (OrgID b) (Name b') = Inr new
                    \<and> fmlookup (bucketindexv1 tx) new = None
                    \<and> bucketindexv1 tx' = fmupd new e (fmdrop old (bucketindexv1 tx))"
    then obtain old' new where
      renamed: "upd_Name upd = Some (Name b')"
      and old': "bucketIndexKey (OrgID b) (Name b) = Inr old'"
      and new: "bucketIndexKey (OrgID b) (Name b') = Inr new"
      and free: "fmlookup (bucketindexv1 tx) new = None"
      and idx0: "bucketindexv1 tx' = fmupd new e (fmdrop old' (bucketindexv1 tx))"
      by blast
    from old old' have "old' = old" by simp
    with idx0 have idx': "bucketindexv1 tx' = fmupd new e (fmdrop old (bucketindexv1 tx))"
      by simp
    have key': "bucketIndexKey (OrgID (json_roundtrip b')) (Name (json_roundtrip b')) = Inr new"
      using new org valid [OF renamed] by (simp add: ValidString_def)
    have idx_eq: "\<And>k. fmlookup (bucketindexv1 tx') k
                    = (if k = new then Some e
                       else if k = old then None else fmlookup (bucketindexv1 tx) k)"
      by (auto simp: idx')
    show ?thesis
      unfolding I1_iff
    proof (intro conjI allI impI)
      fix e' v assume a: "fmlookup (bucketsv1 tx') e' = Some v"
      show "\<exists>b key. v = Doc b \<and> bucketIndexKey (OrgID b) (Name b) = Inr key
           \<and> fmlookup (bucketindexv1 tx') key = Some e'
           \<and> (\<forall>k. fmlookup (bucketindexv1 tx') k = Some e' \<longrightarrow> k = key)"
      proof (cases "e' = e")
        case True
        have v: "v = Doc (json_roundtrip b')" using a True unfolding prim_eq by simp
        have 1: "fmlookup (bucketindexv1 tx') new = Some e'"
          unfolding idx_eq using True by simp
        have 2: "\<forall>k. fmlookup (bucketindexv1 tx') k = Some e' \<longrightarrow> k = new"
        proof (intro allI impI)
          fix k assume k: "fmlookup (bucketindexv1 tx') k = Some e'"
          show "k = new"
          proof (rule ccontr)
            assume n: "k \<noteq> new"
            with k have "k \<noteq> old" "fmlookup (bucketindexv1 tx) k = Some e"
              unfolding idx_eq using True by (simp_all split: if_splits)
            with one show False by blast
          qed
        qed
        from v key' 1 2 show ?thesis by blast
      next
        case False
        have o: "fmlookup (bucketsv1 tx) e' = Some v"
          using a False unfolding prim_eq by simp
        from I1_record [OF inv o] obtain b0 key0 where
          r: "v = Doc b0" "bucketIndexKey (OrgID b0) (Name b0) = Inr key0"
             "fmlookup (bucketindexv1 tx) key0 = Some e'"
          and u: "\<forall>k. fmlookup (bucketindexv1 tx) k = Some e' \<longrightarrow> k = key0"
          by blast
        have nk: "key0 \<noteq> new" "key0 \<noteq> old" using free at_old r(3) False by auto
        have 1: "fmlookup (bucketindexv1 tx') key0 = Some e'"
          unfolding idx_eq using nk r(3) by simp
        have 2: "\<forall>k. fmlookup (bucketindexv1 tx') k = Some e' \<longrightarrow> k = key0"
        proof (intro allI impI)
          fix k assume "fmlookup (bucketindexv1 tx') k = Some e'"
          then have "fmlookup (bucketindexv1 tx) k = Some e'"
            unfolding idx_eq using False by (simp split: if_splits)
          with u show "k = key0" by blast
        qed
        from r(1,2) 1 2 show ?thesis by blast
      qed
    next
      fix k e' assume "fmlookup (bucketindexv1 tx') k = Some e'"
      then have "e' = e \<or> fmlookup (bucketindexv1 tx) k = Some e'"
        unfolding idx_eq by (simp split: if_splits)
      then show "\<exists>v. fmlookup (bucketsv1 tx') e' = Some v"
        using entries by blast
    qed
  qed
qed

section \<open>The mutations store decoded documents\<close>

lemma docs_decoded_CreateBucket:
  assumes "docs_decoded tx" and "CreateBucket gen tx b now1 now2 = (None, b', tx')"
  shows "docs_decoded tx'"
proof -
  from CreateBucket_None [OF assms(2)] obtain e where
    prim': "bucketsv1 tx' = fmupd e (Doc (json_roundtrip b')) (bucketsv1 tx)"
    by blast
  show ?thesis
    using assms(1) unfolding docs_decoded_iff prim'
    by (auto simp: ValidString_coerce_utf8 split: if_splits)
qed

lemma docs_decoded_UpdateBucket:
  assumes "docs_decoded tx" and "UpdateBucket tx ident upd now = (Inr b', tx')"
  shows "docs_decoded tx'"
proof -
  from UpdateBucket_Inr [OF assms(2)] obtain e where
    prim': "bucketsv1 tx' = fmupd e (Doc (json_roundtrip b')) (bucketsv1 tx)"
    by blast
  show ?thesis
    using assms(1) unfolding docs_decoded_iff prim'
    by (auto simp: ValidString_coerce_utf8 split: if_splits)
qed

lemma docs_decoded_DeleteBucket:
  assumes "docs_decoded tx" and "DeleteBucket tx ident = (None, tx')"
  shows "docs_decoded tx'"
proof -
  from DeleteBucket_None [OF assms(2)] obtain e where
    prim': "bucketsv1 tx' = fmdrop e (bucketsv1 tx)"
    by blast
  show ?thesis
    using assms(1) unfolding docs_decoded_iff prim'
    by (auto split: if_splits)
qed

section \<open>Lookups in a transaction without faults\<close>

lemma GetBucketByName_miss:
  assumes "bucketIndexKey orgID n = Inr key"
    and "fmlookup (bucketindexv1 tx) key = None"
    and "no_faults tx"
  shows "GetBucketByName tx orgID n =
      (if n = TasksSystemBucketName then
         Inr \<lparr>ID = TasksSystemBucketID, OrgID = orgID,
              Type = BucketTypeSystem, Name = TasksSystemBucketName,
              Description = ''System bucket for task logs'',
              RetentionPeriod = TasksSystemBucketRetention,
              CreatedAt = 0, UpdatedAt = 0\<rparr>
       else if n = MonitoringSystemBucketName then
         Inr \<lparr>ID = MonitoringSystemBucketID, OrgID = orgID,
              Type = BucketTypeSystem, Name = MonitoringSystemBucketName,
              Description = ''System bucket for monitoring logs'',
              RetentionPeriod = MonitoringSystemBucketRetention,
              CreatedAt = 0, UpdatedAt = 0\<rparr>
       else Inl (ErrBucketNotFoundByName n))"
proof -
  have miss: "idx_Get tx key = Inl ErrKeyNotFound"
    using assms(2,3) by (simp add: no_faults_idx_Get)
  show ?thesis
    unfolding GetBucketByName_def
    by (simp only: assms(1) no_faults_tx_Bucket [OF assms(3)] miss IsNotFound_def
        sum.case unit.case refl if_True)
qed

lemma GetBucket_stored:
  assumes "Encode ident = Inr e" and "no_faults tx"
  shows "GetBucket tx ident =
           (case fmlookup (bucketsv1 tx) e of
              None \<Rightarrow> Inl ErrBucketNotFound
            | Some v \<Rightarrow> unmarshalBucket v)"
  using assms
  by (simp add: GetBucket_def no_faults_tx_Bucket no_faults_b_Get IsNotFound_def
      split: option.splits)

lemma GetBucketByName_hit:
  assumes "bucketIndexKey orgID n = Inr key"
    and "fmlookup (bucketindexv1 tx) key = Some e"
    and "Encode ident = Inr e"
    and "no_faults tx"
  shows "GetBucketByName tx orgID n = GetBucket tx ident"
  using assms
  by (simp add: GetBucketByName_def no_faults_tx_Bucket no_faults_idx_Get Decode_Encode)

section \<open>Renaming in UpdateBucket\<close>

text \<open>
  Claim C5. For every \<open>UpdateBucket(id, patch)\<close> where \<open>patch.Name\<close> is present, differs
  from the current name, and the loaded bucket is System-type, the call fails with
  Forbidden (\<open>errRenameSystemBucket\<close>) and mutates neither the index nor the primary
  table: the transaction returned is the one passed in.
\<close>

theorem UpdateBucket_system_rename_forbidden:
  assumes "GetBucket tx ident = Inr b"
    and "upd_Name upd = Some new_name"
    and "new_name \<noteq> Name b"
    and "Type b = BucketTypeSystem"
  shows "UpdateBucket tx ident upd now = (Inl errRenameSystemBucket, tx)"
proof -
  from assms(1) obtain e where "Encode ident = Inr e"
    using GetBucket_Inr by blast
  then show ?thesis
    using assms by (auto simp: UpdateBucket_def UpdateBucket_rename_def Let_def)
qed

theorem UpdateBucket_system_rename_forbidden_witness:
  "GetBucket tx_tasks 10
     = Inr ((new_bucket 10 1 BucketTypeSystem ''_tasks'')\<lparr>CreatedAt := 1, UpdatedAt := 1\<rparr>)
   \<and> upd_Name (rename_to ''logs'') = Some ''logs''
   \<and> ''logs''
     \<noteq> Name ((new_bucket 10 1 BucketTypeSystem ''_tasks'')\<lparr>CreatedAt := 1, UpdatedAt := 1\<rparr>)
   \<and> Type ((new_bucket 10 1 BucketTypeSystem ''_tasks'')\<lparr>CreatedAt := 1, UpdatedAt := 1\<rparr>)
     = BucketTypeSystem
   \<and> UpdateBucket tx_tasks 10 (rename_to ''logs'') 7 = (Inl errRenameSystemBucket, tx_tasks)"
proof -
  let ?b = "(new_bucket 10 1 BucketTypeSystem ''_tasks'')\<lparr>CreatedAt := 1, UpdatedAt := 1\<rparr>"
  have g: "GetBucket tx_tasks 10 = Inr ?b"
    by code_simp
  have u: "upd_Name (rename_to ''logs'') = Some ''logs''"
    by (simp add: rename_to_def)
  have n: "''logs'' \<noteq> Name ?b"
    by (simp add: new_bucket_def)
  have t: "Type ?b = BucketTypeSystem"
    by (simp add: new_bucket_def)
  from UpdateBucket_system_rename_forbidden [OF g u n t] g u n t show ?thesis by blast
qed

text \<open>
  Claim C10. For every \<open>UpdateBucket(id, patch)\<close> where \<open>patch.Name\<close> is present and
  differs from the current name of a non-System bucket, any failure of the uniqueness
  probe \<open>uniqueBucketName\<close> (the new name already indexed, the index key not buildable,
  the index not available, or an internal index-read failure alike) is reported as
  NameNotUnique (\<open>ErrBucketNameNotUnique\<close>), never as the probe's own error. The witness
  is a probe that fails with \<open>ErrInternalServiceError\<close>.
\<close>

theorem UpdateBucket_probe_failure_is_NameNotUnique:
  assumes "GetBucket tx ident = Inr b"
    and "upd_Name upd = Some new_name"
    and "new_name \<noteq> Name b"
    and "Type b \<noteq> BucketTypeSystem"
    and "uniqueBucketName tx (OrgID b) new_name = Some err"
  shows "UpdateBucket tx ident upd now = (Inl ErrBucketNameNotUnique, tx)"
proof -
  from assms(1) obtain e where "Encode ident = Inr e"
    using GetBucket_Inr by blast
  then show ?thesis
    using assms by (auto simp: UpdateBucket_def UpdateBucket_rename_def Let_def)
qed

theorem UpdateBucket_probe_failure_is_NameNotUnique_witness:
  "GetBucket (tx_index_read_fails (hex_fixed 16 1 @ ''m2'')) 5
     = Inr ((new_bucket 5 1 BucketTypeUser ''metrics'')\<lparr>CreatedAt := 1, UpdatedAt := 1\<rparr>)
   \<and> upd_Name (rename_to ''m2'') = Some ''m2''
   \<and> ''m2''
     \<noteq> Name ((new_bucket 5 1 BucketTypeUser ''metrics'')\<lparr>CreatedAt := 1, UpdatedAt := 1\<rparr>)
   \<and> Type ((new_bucket 5 1 BucketTypeUser ''metrics'')\<lparr>CreatedAt := 1, UpdatedAt := 1\<rparr>)
     \<noteq> BucketTypeSystem
   \<and> uniqueBucketName (tx_index_read_fails (hex_fixed 16 1 @ ''m2''))
       (OrgID ((new_bucket 5 1 BucketTypeUser ''metrics'')\<lparr>CreatedAt := 1, UpdatedAt := 1\<rparr>))
       ''m2''
     = Some (ErrInternalServiceError (ErrStorage ''i/o error''))
   \<and> UpdateBucket (tx_index_read_fails (hex_fixed 16 1 @ ''m2'')) 5 (rename_to ''m2'') 7
     = (Inl ErrBucketNameNotUnique, tx_index_read_fails (hex_fixed 16 1 @ ''m2''))"
proof -
  let ?tx = "tx_index_read_fails (hex_fixed 16 1 @ ''m2'')"
  let ?b = "(new_bucket 5 1 BucketTypeUser ''metrics'')\<lparr>CreatedAt := 1, UpdatedAt := 1\<rparr>"
  have g: "GetBucket ?tx 5 = Inr ?b"
    by code_simp
  have u: "upd_Name (rename_to ''m2'') = Some ''m2''"
    by (simp add: rename_to_def)
  have n: "''m2'' \<noteq> Name ?b"
    by (simp add: new_bucket_def)
  have t: "Type ?b \<noteq> BucketTypeSystem"
    by (simp add: new_bucket_def)
  have p: "uniqueBucketName ?tx (OrgID ?b) ''m2''
             = Some (ErrInternalServiceError (ErrStorage ''i/o error''))"
    by code_simp
  from UpdateBucket_probe_failure_is_NameNotUnique [OF g u n t p] g u n t p
  show ?thesis by blast
qed

section \<open>Listing\<close>

text \<open>
  Claim C8, as amended. For every \<open>ListBuckets\<close> call whose filter has both \<open>Name\<close> and
  \<open>OrganizationID\<close> set, the call returns no results and fails: with InvalidRequest
  (\<open>invalidBucketListRequest\<close>) when the organization ID is a valid identifier, and
  otherwise with the invalid-identifier error of the index key builder, raised by the
  listing by organization to which the call then falls through.
\<close>

theorem ListBuckets_name_and_org:
  assumes "filter_Name flt = Some n"
    and "filter_OrganizationID flt = Some oid"
  shows "ListBuckets tx flt opt =
           ([], Some (if Valid oid then invalidBucketListRequest
                      else Error_EInvalid (Error_EInvalid ErrInvalidID)))"
  using assms
  by (simp add: ListBuckets_def listBucketsByOrg_def bucketIndexKey_def Encode_def Let_def)

theorem ListBuckets_name_and_org_witness:
  "filter_Name (by_org_and_name 1 ''metrics'') = Some ''metrics''
   \<and> filter_OrganizationID (by_org_and_name 1 ''metrics'') = Some 1
   \<and> ListBuckets tx_metrics (by_org_and_name 1 ''metrics'') [page 2 False]
       = ([], Some invalidBucketListRequest)"
proof -
  have n: "filter_Name (by_org_and_name 1 ''metrics'') = Some ''metrics''"
    by (simp add: by_org_and_name_def)
  have oid: "filter_OrganizationID (by_org_and_name 1 ''metrics'') = Some 1"
    by (simp add: by_org_and_name_def)
  have v: "Valid 1" by (simp add: Valid_def)
  from ListBuckets_name_and_org [OF n oid, of tx_metrics "[page 2 False]"] v n oid
  show ?thesis by simp
qed

text \<open>
  The claim as stated ("regardless of whether the supplied OrganizationID is a valid
  identifier") fails for the invalid ID 0: the guard of \<open>ListBuckets\<close> asks for
  \<open>filter.OrganizationID.Valid()\<close>, and the error returned is not
  \<open>invalidBucketListRequest\<close>.
\<close>

theorem ListBuckets_name_and_invalid_org_counterexample:
  "filter_Name (by_org_and_name 0 ''metrics'') \<noteq> None
   \<and> filter_OrganizationID (by_org_and_name 0 ''metrics'') \<noteq> None
   \<and> ListBuckets tx_metrics (by_org_and_name 0 ''metrics'') [page 2 False]
       \<noteq> ([], Some invalidBucketListRequest)"
  by code_simp

text \<open>
  Claim C2. The spec has \<open>ListBuckets\<close> by organization scan the index in the requested
  direction, so that for the buckets \<open>a\<close>, \<open>b\<close>, \<open>c\<close> of one organization a limit of 2 gives
  \<open>a, b\<close> and a limit of 2 with \<open>Descending\<close> gives \<open>c, b\<close>. The code does the first but not
  the second: \<open>listBucketsByOrg\<close> opens its cursor without a direction, so the descending
  listing is \<open>a, b\<close> as well.
\<close>

theorem ListBuckets_by_org_descending_is_ascending:
  "map Name (fst (ListBuckets tx_abc (by_org 1) [page 2 True])) = [''a'', ''b'']
   \<and> snd (ListBuckets tx_abc (by_org 1) [page 2 True]) = None
   \<and> map Name (fst (ListBuckets tx_abc (by_org 1) [page 2 False])) = [''a'', ''b'']"
  by code_simp

text \<open>
  \<open>listBucketsByOrg\<close> never reads \<open>Descending\<close>, while the listing without an organization
  passes it to its cursor: over the same state (primary keys 1, 2, 3 for \<open>a\<close>, \<open>b\<close>, \<open>c\<close>) it
  returns \<open>c, b\<close>.
\<close>

lemma ListBuckets_unfiltered_descending_is_reversed:
  "map Name (fst (ListBuckets tx_abc unfiltered [page 2 True])) = [''c'', ''b'']"
  by code_simp

lemma listBucketsByOrg_loop_ignores_Descending:
  "listBucketsByOrg_loop tx (fo\<lparr>Descending := d\<rparr>) es count bs
     = listBucketsByOrg_loop tx fo es count bs"
  by (induction tx fo es count bs rule: listBucketsByOrg_loop.induct)
    (simp_all split: sum.splits)

lemma listBucketsByOrg_ignores_Descending:
  "listBucketsByOrg tx orgID (fo\<lparr>Descending := d\<rparr>) = listBucketsByOrg tx orgID fo"
  by (simp add: listBucketsByOrg_def listBucketsByOrg_loop_ignores_Descending
      cong: sum.case_cong)

section \<open>Lookup by name\<close>

text \<open>
  Claim C6. For every organization ID \<open>orgID\<close> (one whose index key can be built) and
  name \<open>n\<close>, if the index has no entry under the key of \<open>(orgID, n)\<close>, then
  \<open>GetBucketByName\<close> returns, for each of the two reserved names, a System-type record
  with the fixed identifier and retention period of that name and with the requested
  \<open>OrgID\<close>, whatever else the tables hold, and fails with NotFoundByName
  (\<open>ErrBucketNotFoundByName\<close>) for every other name. \<open>GetBucketByName\<close> returns no
  transaction: it calls neither \<open>Put\<close> nor \<open>Delete\<close>, so neither table is written.
\<close>

theorem GetBucketByName_index_miss:
  assumes "bucketIndexKey orgID n = Inr key"
    and "fmlookup (bucketindexv1 tx) key = None"
    and "no_faults tx"
  shows "(n = TasksSystemBucketName \<longrightarrow>
            (\<exists>r. GetBucketByName tx orgID n = Inr r \<and> Type r = BucketTypeSystem
               \<and> ID r = TasksSystemBucketID
               \<and> RetentionPeriod r = TasksSystemBucketRetention
               \<and> OrgID r = orgID \<and> Name r = n))
       \<and> (n = MonitoringSystemBucketName \<longrightarrow>
            (\<exists>r. GetBucketByName tx orgID n = Inr r \<and> Type r = BucketTypeSystem
               \<and> ID r = MonitoringSystemBucketID
               \<and> RetentionPeriod r = MonitoringSystemBucketRetention
               \<and> OrgID r = orgID \<and> Name r = n))
       \<and> (n \<noteq> TasksSystemBucketName \<and> n \<noteq> MonitoringSystemBucketName \<longrightarrow>
            GetBucketByName tx orgID n = Inl (ErrBucketNotFoundByName n))"
proof -
  have distinct_names: "TasksSystemBucketName \<noteq> MonitoringSystemBucketName"
    by (simp add: TasksSystemBucketName_def MonitoringSystemBucketName_def)
  show ?thesis
    unfolding GetBucketByName_miss [OF assms] using distinct_names by auto
qed

theorem GetBucketByName_index_miss_witness:
  "bucketIndexKey 1 TasksSystemBucketName = Inr (hex_fixed 16 1 @ ''_tasks'')
   \<and> fmlookup (bucketindexv1 tx_empty) (hex_fixed 16 1 @ ''_tasks'') = None
   \<and> no_faults tx_empty
   \<and> (\<exists>r. GetBucketByName tx_empty 1 TasksSystemBucketName = Inr r
          \<and> Type r = BucketTypeSystem \<and> ID r = TasksSystemBucketID
          \<and> RetentionPeriod r = TasksSystemBucketRetention
          \<and> OrgID r = 1 \<and> Name r = TasksSystemBucketName)"
proof -
  have k: "bucketIndexKey 1 TasksSystemBucketName = Inr (hex_fixed 16 1 @ ''_tasks'')"
    by code_simp
  have m: "fmlookup (bucketindexv1 tx_empty) (hex_fixed 16 1 @ ''_tasks'') = None"
    by code_simp
  have f: "no_faults tx_empty"
    by code_simp
  from GetBucketByName_index_miss [OF k m f] k m f show ?thesis by blast
qed

section \<open>Creating\<close>

text \<open>
  Claim C9. The spec has \<open>CreateBucket\<close> reject an empty name with the empty-name error
  (\<open>ErrNameisEmpty\<close>) and write nothing. The code tests the length of the index key, not
  of the name, and the key always starts with the \<open>IDLength\<close> bytes of the organization
  ID: a bucket with the empty name is created, and both tables are written.
\<close>

theorem CreateBucket_empty_name_is_stored:
  "Name (new_bucket 1 1 BucketTypeUser []) = []
   \<and> fst (CreateBucket failing_generator tx_empty (new_bucket 1 1 BucketTypeUser []) 1 1) = None
   \<and> bucketindexv1 (snd (snd
         (CreateBucket failing_generator tx_empty (new_bucket 1 1 BucketTypeUser []) 1 1)))
       = fmupd ''0000000000000001'' ''0000000000000001'' fmempty
   \<and> bucketsv1 (snd (snd
         (CreateBucket failing_generator tx_empty (new_bucket 1 1 BucketTypeUser []) 1 1)))
       = fmupd ''0000000000000001''
           (Doc ((new_bucket 1 1 BucketTypeUser [])\<lparr>CreatedAt := 1, UpdatedAt := 1\<rparr>)) fmempty"
  by code_simp

text \<open>The empty-name error cannot be returned at all.\<close>

lemma uniqueBucketName_never_ErrNameisEmpty:
  "uniqueBucketName tx oid uname \<noteq> Some ErrNameisEmpty"
  by (auto simp: uniqueBucketName_def bucketIndexKey_def Encode_def IDLength_def
      tx_Bucket_def split: sum.splits if_splits option.splits)

text \<open>
  Claim C3, as amended. For every bucket that \<open>CreateBucket\<close> creates with organization
  \<open>o\<close> and name \<open>n\<close>, a following \<open>GetBucketByName(o, n)\<close> in the same transaction state
  and \<open>GetBucket\<close> of the created bucket's ID return one and the same record, which has
  the ID of the created bucket: the created bucket as the record codec reads it back. It
  is identical to the created bucket when the bucket's name and description are valid
  UTF-8; otherwise it differs from it in those two strings, where every invalid byte is
  U+FFFD. The bucket \<open>b'\<close> is the caller's bucket after the call (ID assigned, timestamps
  set); the reads are made with a storage engine that does not fail. The name need not
  be set apart from the reserved ones: the index entry is found first.
\<close>

theorem CreateBucket_then_lookups:
  assumes "CreateBucket gen tx b now1 now2 = (None, b', tx')"
    and "no_faults tx"
  shows "GetBucketByName tx' (OrgID b) (Name b) = Inr (json_roundtrip b')
       \<and> GetBucket tx' (ID b') = Inr (json_roundtrip b')
       \<and> ID (json_roundtrip b') = ID b'
       \<and> (ValidString (Name b') \<and> ValidString (Description b') \<longrightarrow>
            json_roundtrip b' = b')"
proof -
  from CreateBucket_None [OF assms(1)] obtain e key where
    enc: "Encode (ID b') = Inr e"
    and key: "bucketIndexKey (OrgID b) (Name b) = Inr key"
    and idx': "bucketindexv1 tx' = fmupd key e (bucketindexv1 tx)"
    and prim': "bucketsv1 tx' = fmupd e (Doc (json_roundtrip b')) (bucketsv1 tx)"
    and f: "failing tx' = failing tx"
    by blast
  have nf: "no_faults tx'" using assms(2) f by (simp add: no_faults_def)
  have g: "GetBucket tx' (ID b') = Inr (json_roundtrip b')"
    by (simp add: GetBucket_stored [OF enc nf] prim' unmarshalBucket_def)
  have "fmlookup (bucketindexv1 tx') key = Some e" by (simp add: idx')
  from GetBucketByName_hit [OF key this enc nf] g
  have n: "GetBucketByName tx' (OrgID b) (Name b) = Inr (json_roundtrip b')" by simp
  from n g show ?thesis by (simp add: json_roundtrip_valid)
qed

theorem CreateBucket_then_lookups_witness:
  "fst (CreateBucket (constant_generator 7) tx_metrics (new_bucket 0 1 BucketTypeUser ''traces'') 2 3)
     = None
   \<and> no_faults tx_metrics
   \<and> ValidString (Name (fst (snd (CreateBucket (constant_generator 7) tx_metrics
                     (new_bucket 0 1 BucketTypeUser ''traces'') 2 3))))
   \<and> ValidString (Description (fst (snd (CreateBucket (constant_generator 7) tx_metrics
                     (new_bucket 0 1 BucketTypeUser ''traces'') 2 3))))
   \<and> ID (fst (snd (CreateBucket (constant_generator 7) tx_metrics
                     (new_bucket 0 1 BucketTypeUser ''traces'') 2 3))) = 7
   \<and> GetBucketByName
       (snd (snd (CreateBucket (constant_generator 7) tx_metrics
                    (new_bucket 0 1 BucketTypeUser ''traces'') 2 3)))
       1 ''traces''
     = Inr (fst (snd (CreateBucket (constant_generator 7) tx_metrics
                        (new_bucket 0 1 BucketTypeUser ''traces'') 2 3)))
   \<and> GetBucket
       (snd (snd (CreateBucket (constant_generator 7) tx_metrics
                    (new_bucket 0 1 BucketTypeUser ''traces'') 2 3)))
       7
     = Inr (fst (snd (CreateBucket (constant_generator 7) tx_metrics
                        (new_bucket 0 1 BucketTypeUser ''traces'') 2 3)))"
proof -
  let ?new = "new_bucket 0 1 BucketTypeUser ''traces''"
  let ?c = "CreateBucket (constant_generator 7) tx_metrics ?new 2 3"
  have c: "fst ?c = None"
    by code_simp
  have nf: "no_faults tx_metrics"
    by code_simp
  have vn: "ValidString (Name (fst (snd ?c)))"
    by code_simp
  have vd: "ValidString (Description (fst (snd ?c)))"
    by code_simp
  have i: "ID (fst (snd ?c)) = 7"
    by code_simp
  have o: "OrgID ?new = 1" and n: "Name ?new = ''traces''"
    by (simp_all add: new_bucket_def)
  have c': "?c = (None, fst (snd ?c), snd (snd ?c))"
    using c by (metis prod.collapse)
  from CreateBucket_then_lookups [OF c' nf] c nf vn vd i o n show ?thesis by simp
qed

text \<open>
  The claim as stated has \<open>GetBucket\<close> return a record identical to the created bucket
  for every bucket. For a bucket created with the name \<open>0xFF\<close>, which is not valid UTF-8,
  the record read back has the name U+FFFD.
\<close>

theorem CreateBucket_non_utf8_name_read_back_counterexample:
  "fst (CreateBucket failing_generator tx_metrics (new_bucket 6 1 BucketTypeUser [CHR 0xFF]) 2 2)
     = None
   \<and> ID (fst (snd (CreateBucket failing_generator tx_metrics
                     (new_bucket 6 1 BucketTypeUser [CHR 0xFF]) 2 2))) = 6
   \<and> GetBucket
       (snd (snd (CreateBucket failing_generator tx_metrics
                    (new_bucket 6 1 BucketTypeUser [CHR 0xFF]) 2 2)))
       6
     \<noteq> Inr (fst (snd (CreateBucket failing_generator tx_metrics
                        (new_bucket 6 1 BucketTypeUser [CHR 0xFF]) 2 2)))
   \<and> GetBucket
       (snd (snd (CreateBucket failing_generator tx_metrics
                    (new_bucket 6 1 BucketTypeUser [CHR 0xFF]) 2 2)))
       6
     = Inr ((fst (snd (CreateBucket failing_generator tx_metrics
                         (new_bucket 6 1 BucketTypeUser [CHR 0xFF]) 2 2)))
              \<lparr>Name := [CHR 0xEF, CHR 0xBF, CHR 0xBD]\<rparr>)"
  by code_simp



section \<open>Deleting\<close>

text \<open>
  Claim C7, as amended. For every stored bucket with ID \<open>X\<close>, organization \<open>o\<close> and name
  \<open>n\<close>, after a successful \<open>DeleteBucket(X)\<close> (and with a storage engine that does not
  fail) \<open>GetBucket(X)\<close> fails with NotFound, the index entry of \<open>(o, n)\<close> is gone, and
  \<open>GetBucketByName(o, n)\<close> fails with NotFoundByName when \<open>n\<close> is not one of the two
  reserved system-bucket names; for a reserved name it returns the synthesized System
  bucket.
\<close>

theorem DeleteBucket_then_lookups:
  assumes "GetBucket tx ident = Inr b"
    and "DeleteBucket tx ident = (None, tx')"
    and "no_faults tx"
  shows "GetBucket tx' ident = Inl ErrBucketNotFound
       \<and> (\<exists>key. bucketIndexKey (OrgID b) (Name b) = Inr key
              \<and> fmlookup (bucketindexv1 tx') key = None)
       \<and> (Name b \<noteq> TasksSystemBucketName \<and> Name b \<noteq> MonitoringSystemBucketName \<longrightarrow>
            GetBucketByName tx' (OrgID b) (Name b) = Inl (ErrBucketNotFoundByName (Name b)))
       \<and> (Name b = TasksSystemBucketName \<or> Name b = MonitoringSystemBucketName \<longrightarrow>
            (\<exists>r. GetBucketByName tx' (OrgID b) (Name b) = Inr r \<and> Type r = BucketTypeSystem))"
proof -
  from DeleteBucket_None [OF assms(2)] obtain e b1 key where
    enc: "Encode ident = Inr e"
    and g: "GetBucket tx ident = Inr b1"
    and key1: "bucketIndexKey (OrgID b1) (Name b1) = Inr key"
    and idx': "bucketindexv1 tx' = fmdrop key (bucketindexv1 tx)"
    and prim': "bucketsv1 tx' = fmdrop e (bucketsv1 tx)"
    and f: "failing tx' = failing tx"
    by blast
  from g assms(1) have "b1 = b" by simp
  with key1 have key: "bucketIndexKey (OrgID b) (Name b) = Inr key" by simp
  have nf: "no_faults tx'" using assms(3) f by (simp add: no_faults_def)
  have 1: "GetBucket tx' ident = Inl ErrBucketNotFound"
    by (simp add: GetBucket_stored [OF enc nf] prim')
  have gone: "fmlookup (bucketindexv1 tx') key = None" by (simp add: idx')
  note eq = GetBucketByName_miss [OF key gone nf]
  have 3: "Name b \<noteq> TasksSystemBucketName \<and> Name b \<noteq> MonitoringSystemBucketName \<longrightarrow>
            GetBucketByName tx' (OrgID b) (Name b) = Inl (ErrBucketNotFoundByName (Name b))"
    unfolding eq by simp
  have 4: "Name b = TasksSystemBucketName \<or> Name b = MonitoringSystemBucketName \<longrightarrow>
            (\<exists>r. GetBucketByName tx' (OrgID b) (Name b) = Inr r \<and> Type r = BucketTypeSystem)"
    unfolding eq by auto
  from 1 key gone 3 4 show ?thesis by blast
qed

theorem DeleteBucket_then_lookups_witness:
  "GetBucket tx_metrics 5
     = Inr ((new_bucket 5 1 BucketTypeUser ''metrics'')\<lparr>CreatedAt := 1, UpdatedAt := 1\<rparr>)
   \<and> fst (DeleteBucket tx_metrics 5) = None
   \<and> no_faults tx_metrics
   \<and> GetBucket (snd (DeleteBucket tx_metrics 5)) 5 = Inl ErrBucketNotFound
   \<and> fmlookup (bucketindexv1 (snd (DeleteBucket tx_metrics 5))) (hex_fixed 16 1 @ ''metrics'')
       = None
   \<and> GetBucketByName (snd (DeleteBucket tx_metrics 5)) 1 ''metrics''
       = Inl (ErrBucketNotFoundByName ''metrics'')"
proof -
  let ?b = "(new_bucket 5 1 BucketTypeUser ''metrics'')\<lparr>CreatedAt := 1, UpdatedAt := 1\<rparr>"
  let ?d = "DeleteBucket tx_metrics 5"
  have g: "GetBucket tx_metrics 5 = Inr ?b"
    by code_simp
  have d: "fst ?d = None"
    by code_simp
  have nf: "no_faults tx_metrics"
    by code_simp
  have d': "?d = (None, snd ?d)"
    using d by (metis prod.collapse)
  have k: "bucketIndexKey (OrgID ?b) (Name ?b) = Inr (hex_fixed 16 1 @ ''metrics'')"
    by code_simp
  have o: "OrgID ?b = 1" and n: "Name ?b = ''metrics''"
    by (simp_all add: new_bucket_def)
  have r: "Name ?b \<noteq> TasksSystemBucketName \<and> Name ?b \<noteq> MonitoringSystemBucketName"
    by (simp add: new_bucket_def TasksSystemBucketName_def MonitoringSystemBucketName_def)
  from DeleteBucket_then_lookups [OF g d' nf] g d nf k o n r show ?thesis by auto
qed

text \<open>
  The claim as stated fails for a stored bucket under a reserved name: after the bucket
  \<open>_tasks\<close> is deleted, \<open>GetBucketByName\<close> misses the index and answers with the
  synthesized bucket, not with NotFoundByName.
\<close>

theorem DeleteBucket_reserved_name_counterexample:
  "GetBucket tx_tasks 10
     = Inr ((new_bucket 10 1 BucketTypeSystem ''_tasks'')\<lparr>CreatedAt := 1, UpdatedAt := 1\<rparr>)
   \<and> fst (DeleteBucket tx_tasks 10) = None
   \<and> GetBucketByName (snd (DeleteBucket tx_tasks 10)) 1 ''_tasks''
       \<noteq> Inl (ErrBucketNotFoundByName ''_tasks'')"
  by code_simp

section \<open>Invariant I1 across the mutations\<close>

text \<open>
  Claim C1, as amended. Starting from any state that satisfies I1 (its documents being
  decoded ones), after a single \<open>CreateBucket\<close>, \<open>UpdateBucket\<close> or \<open>DeleteBucket\<close> call that
  returns success the state satisfies I1 again (and its documents are decoded ones),
  provided that the ID under which \<open>CreateBucket\<close> stores the record (the caller's when
  valid, the generated one otherwise) is not yet a key of the primary table, and that
  the name \<open>CreateBucket\<close> is given, and the name a patch of \<open>UpdateBucket\<close> carries, is
  valid UTF-8.
\<close>

theorem mutations_preserve_I1:
  assumes "I1 tx"
    and "docs_decoded tx"
  shows "(CreateBucket gen tx b now1 now2 = (None, b1, tx1) \<and> \<not> stored_ID tx (ID b1)
            \<and> ValidString (Name b)
            \<longrightarrow> I1 tx1 \<and> docs_decoded tx1)
       \<and> (UpdateBucket tx ident2 upd now = (Inr b2, tx2)
            \<and> (case upd_Name upd of None \<Rightarrow> True | Some n \<Rightarrow> ValidString n)
            \<longrightarrow> I1 tx2 \<and> docs_decoded tx2)
       \<and> (DeleteBucket tx ident3 = (None, tx3) \<longrightarrow> I1 tx3 \<and> docs_decoded tx3)"
proof (intro conjI impI)
  assume c: "CreateBucket gen tx b now1 now2 = (None, b1, tx1) \<and> \<not> stored_ID tx (ID b1)
            \<and> ValidString (Name b)"
  then show "I1 tx1" using I1_CreateBucket [OF assms(1)] by blast
  from c show "docs_decoded tx1" using docs_decoded_CreateBucket [OF assms(2)] by blast
next
  assume u: "UpdateBucket tx ident2 upd now = (Inr b2, tx2)
            \<and> (case upd_Name upd of None \<Rightarrow> True | Some n \<Rightarrow> ValidString n)"
  then have v: "\<And>n. upd_Name upd = Some n \<Longrightarrow> ValidString n" by simp
  from u have up: "UpdateBucket tx ident2 upd now = (Inr b2, tx2)" by simp
  from I1_UpdateBucket [OF assms(1) up assms(2) v] show "I1 tx2" .
  from docs_decoded_UpdateBucket [OF assms(2) up] show "docs_decoded tx2" .
next
  assume d: "DeleteBucket tx ident3 = (None, tx3)"
  from I1_DeleteBucket [OF assms(1) d] show "I1 tx3" .
  from docs_decoded_DeleteBucket [OF assms(2) d] show "docs_decoded tx3" .
qed

theorem mutations_preserve_I1_witness:
  "I1 tx_metrics
   \<and> docs_decoded tx_metrics
   \<and> fst (CreateBucket failing_generator tx_metrics (new_bucket 6 1 BucketTypeUser ''traces'') 2 2)
       = None
   \<and> \<not> stored_ID tx_metrics (ID (fst (snd
         (CreateBucket failing_generator tx_metrics (new_bucket 6 1 BucketTypeUser ''traces'') 2 2))))
   \<and> ValidString (Name (new_bucket 6 1 BucketTypeUser ''traces''))
   \<and> I1 (snd (snd
         (CreateBucket failing_generator tx_metrics (new_bucket 6 1 BucketTypeUser ''traces'') 2 2)))
   \<and> fst (UpdateBucket tx_metrics 5 (rename_to ''m2'') 3)
       = Inr ((new_bucket 5 1 BucketTypeUser ''m2'')\<lparr>CreatedAt := 1, UpdatedAt := 3\<rparr>)
   \<and> (case upd_Name (rename_to ''m2'') of None \<Rightarrow> True | Some n \<Rightarrow> ValidString n)
   \<and> I1 (snd (UpdateBucket tx_metrics 5 (rename_to ''m2'') 3))
   \<and> fst (DeleteBucket tx_metrics 5) = None
   \<and> I1 (snd (DeleteBucket tx_metrics 5))"
proof -
  let ?new = "new_bucket 6 1 BucketTypeUser ''traces''"
  let ?c = "CreateBucket failing_generator tx_metrics ?new 2 2"
  let ?u = "UpdateBucket tx_metrics 5 (rename_to ''m2'') 3"
  let ?renamed = "(new_bucket 5 1 BucketTypeUser ''m2'')\<lparr>CreatedAt := 1, UpdatedAt := 3\<rparr>"
  let ?d = "DeleteBucket tx_metrics 5"
  have i: "I1 tx_metrics"
    by code_simp
  have dd: "docs_decoded tx_metrics"
    by code_simp
  have c: "fst ?c = None"
    by code_simp
  have fr: "\<not> stored_ID tx_metrics (ID (fst (snd ?c)))"
    by code_simp
  have vc: "ValidString (Name ?new)"
    by code_simp
  have u: "fst ?u = Inr ?renamed"
    by code_simp
  have vu: "case upd_Name (rename_to ''m2'') of None \<Rightarrow> True | Some n \<Rightarrow> ValidString n"
    by code_simp
  have d: "fst ?d = None"
    by code_simp
  have c': "?c = (None, fst (snd ?c), snd (snd ?c))"
    using c by (metis prod.collapse)
  have u': "?u = (Inr ?renamed, snd ?u)"
    using u by (metis prod.collapse)
  have d': "?d = (None, snd ?d)"
    using d by (metis prod.collapse)
  note all = mutations_preserve_I1 [OF i dd, of failing_generator ?new 2 2
      "fst (snd ?c)" "snd (snd ?c)" 5 "rename_to ''m2''" 3 ?renamed "snd ?u" 5 "snd ?d"]
  from all c' fr vc have 1: "I1 (snd (snd ?c))" by blast
  from all u' vu have 2: "I1 (snd ?u)" by blast
  from all d' have 3: "I1 (snd ?d)" by blast
  from i dd c fr vc u vu d 1 2 3 show ?thesis by blast
qed

text \<open>
  The claim as stated includes a caller-supplied valid ID that is already a key of the
  primary table, and puts no condition on names. With the ID 5 of the bucket \<open>metrics\<close>,
  \<open>CreateBucket\<close> checks the name only, overwrites the record and adds a second index
  entry for ID 5, while the entry of \<open>metrics\<close> stays behind. With the fresh ID 6 and the
  name \<open>0xFF\<close>, the index entry is made from the name as given and the record is stored
  with the name U+FFFD; a rename to \<open>0xFF\<close> does the same. Each time I1 is broken.
\<close>

theorem mutations_break_I1_counterexample:
  "I1 tx_metrics
   \<and> docs_decoded tx_metrics
   \<and> Valid (ID (new_bucket 5 1 BucketTypeUser ''traces''))
   \<and> stored_ID tx_metrics (ID (new_bucket 5 1 BucketTypeUser ''traces''))
   \<and> fst (CreateBucket failing_generator tx_metrics (new_bucket 5 1 BucketTypeUser ''traces'') 2 2)
       = None
   \<and> \<not> I1 (snd (snd
         (CreateBucket failing_generator tx_metrics (new_bucket 5 1 BucketTypeUser ''traces'') 2 2)))
   \<and> \<not> stored_ID tx_metrics (ID (new_bucket 6 1 BucketTypeUser [CHR 0xFF]))
   \<and> fst (CreateBucket failing_generator tx_metrics (new_bucket 6 1 BucketTypeUser [CHR 0xFF]) 2 2)
       = None
   \<and> \<not> I1 (snd (snd
         (CreateBucket failing_generator tx_metrics (new_bucket 6 1 BucketTypeUser [CHR 0xFF]) 2 2)))
   \<and> fst (UpdateBucket tx_metrics 5 (rename_to [CHR 0xFF]) 3)
       = Inr ((new_bucket 5 1 BucketTypeUser [CHR 0xFF])\<lparr>CreatedAt := 1, UpdatedAt := 3\<rparr>)
   \<and> \<not> I1 (snd (UpdateBucket tx_metrics 5 (rename_to [CHR 0xFF]) 3))"
  by code_simp

end
